theory Spec2Isabelle
  imports Complex_Main "HOL-Library.Multiset"
begin

section \<open>Numbers\<close>

text \<open>
  The engine computes with JavaScript numbers. A number is modelled as an exact real, or
  one of the three special values that the arithmetic of the source can produce and
  propagate: \<open>NaN\<close>, \<open>+Infinity\<close> and \<open>-Infinity\<close>. Rounding to binary64 and overflow of
  finite results are not modelled, and zero carries no sign: a non-zero number divided by
  zero is taken to be divided by \<open>+0\<close>.
\<close>

datatype jsnum = Fin real | PInf | NInf | NaN

fun isFinite :: "jsnum \<Rightarrow> bool" where
  "isFinite (Fin r) = True"
| "isFinite PInf = False"
| "isFinite NInf = False"
| "isFinite NaN = False"

fun jneg :: "jsnum \<Rightarrow> jsnum" where
  "jneg (Fin a) = Fin (- a)"
| "jneg PInf = NInf"
| "jneg NInf = PInf"
| "jneg NaN = NaN"

fun jadd :: "jsnum \<Rightarrow> jsnum \<Rightarrow> jsnum" where
  "jadd (Fin a) (Fin b) = Fin (a + b)"
| "jadd (Fin a) PInf = PInf"
| "jadd (Fin a) NInf = NInf"
| "jadd PInf (Fin b) = PInf"
| "jadd PInf PInf = PInf"
| "jadd PInf NInf = NaN"
| "jadd NInf (Fin b) = NInf"
| "jadd NInf NInf = NInf"
| "jadd NInf PInf = NaN"
| "jadd NaN b = NaN"
| "jadd a NaN = NaN"

definition jsub :: "jsnum \<Rightarrow> jsnum \<Rightarrow> jsnum" where
  "jsub a b = jadd a (jneg b)"

text \<open>The sign of a number, for the products and quotients that involve an infinity.\<close>

definition signed_inf :: "bool \<Rightarrow> jsnum" where
  "signed_inf positive = (if positive then PInf else NInf)"

fun jmul :: "jsnum \<Rightarrow> jsnum \<Rightarrow> jsnum" where
  "jmul (Fin a) (Fin b) = Fin (a * b)"
| "jmul (Fin a) PInf = (if a = 0 then NaN else signed_inf (0 < a))"
| "jmul (Fin a) NInf = (if a = 0 then NaN else signed_inf (a < 0))"
| "jmul PInf (Fin b) = (if b = 0 then NaN else signed_inf (0 < b))"
| "jmul NInf (Fin b) = (if b = 0 then NaN else signed_inf (b < 0))"
| "jmul PInf PInf = PInf"
| "jmul PInf NInf = NInf"
| "jmul NInf PInf = NInf"
| "jmul NInf NInf = PInf"
| "jmul NaN b = NaN"
| "jmul a NaN = NaN"

fun jdiv :: "jsnum \<Rightarrow> jsnum \<Rightarrow> jsnum" where
  "jdiv (Fin a) (Fin b) =
     (if b \<noteq> 0 then Fin (a / b) else if a = 0 then NaN else signed_inf (0 < a))"
| "jdiv (Fin a) PInf = Fin 0"
| "jdiv (Fin a) NInf = Fin 0"
| "jdiv PInf (Fin b) = signed_inf (0 \<le> b)"
| "jdiv NInf (Fin b) = signed_inf (b < 0)"
| "jdiv PInf PInf = NaN"
| "jdiv PInf NInf = NaN"
| "jdiv NInf PInf = NaN"
| "jdiv NInf NInf = NaN"
| "jdiv NaN b = NaN"
| "jdiv a NaN = NaN"

section \<open>Configuration\<close>

definition ANALYSIS_TICKS :: nat where
  "ANALYSIS_TICKS = 100"

definition STABILITY_ANALYSIS_TICKS :: nat where
  "STABILITY_ANALYSIS_TICKS = 150"

definition KALMAN_R :: real where
  "KALMAN_R = 0.01"

definition KALMAN_Q :: real where
  "KALMAN_Q = 0.1"

definition CERTAINTY_THRESHOLD :: real where
  "CERTAINTY_THRESHOLD = 1.5"

section \<open>The smoother\<close>

text \<open>
  \<open>kalmanState\<close> is the object \<open>{ x, p }\<close>; its fields are called \<open>est_x\<close> and \<open>cov_p\<close>
  here. \<open>est_x = None\<close> is the \<open>null\<close> estimate of a fresh instrument.
\<close>

record kalmanState =
  est_x :: "jsnum option"
  cov_p :: jsnum

text \<open>
  \<open>kalmanUpdate\<close> mutates the state and returns the new estimate; the model returns the
  new state together with that value. The initialisation of a \<open>null\<close> estimate is not an
  early return: the update below it runs on the first call as on every other.
\<close>

definition kalmanUpdate :: "kalmanState \<Rightarrow> jsnum \<Rightarrow> kalmanState \<times> jsnum" where
  "kalmanUpdate state z =
     (let x0 = (case est_x state of None \<Rightarrow> z | Some v \<Rightarrow> v);
          p_pred = jadd (cov_p state) (Fin KALMAN_R);
          K = jdiv p_pred (jadd p_pred (Fin KALMAN_Q));
          x1 = jadd x0 (jmul K (jsub z x0));
          p1 = jmul (jsub (Fin 1) K) p_pred
      in (\<lparr>est_x = Some x1, cov_p = p1\<rparr>, x1))"

text \<open>The filter state of a new instrument: \<open>{ x: null, p: 1 }\<close>.\<close>

definition initialKalmanState :: kalmanState where
  "initialKalmanState = \<lparr>est_x = None, cov_p = Fin 1\<rparr>"

section \<open>Digits\<close>

text \<open>
  A digit is what \<open>parseInt(price.toFixed(2).slice(-1))\<close> yields: one of 0 to 9, or \<open>NaN\<close>
  (\<open>None\<close>) when the last character is not a digit, as for the strings \<open>NaN\<close> and
  \<open>Infinity\<close>.
\<close>

type_synonym digit = "nat option"

text \<open>
  \<open>toFixed(2)\<close> of a number below \<open>10^21\<close> in magnitude prints the integer \<open>n\<close> for which
  \<open>n / 100\<close> is closest to the magnitude, the larger one at a tie; its last character is
  the last decimal digit of \<open>n\<close>. From \<open>10^21\<close> on, \<open>toFixed\<close> prints the number in
  exponential notation, whose last character is the last digit of the decimal exponent,
  taken here as the number of powers of ten up to the magnitude (binary64 ends below
  \<open>10^309\<close>).
\<close>

definition exponentDigit :: "real \<Rightarrow> nat" where
  "exponentDigit a = length (filter (\<lambda>k. 10 ^ k \<le> a) [1..<309]) mod 10"

definition lastDigit :: "jsnum \<Rightarrow> digit" where
  "lastDigit v =
     (case v of
        Fin r \<Rightarrow>
          Some (if \<bar>r\<bar> < 10 ^ 21 then nat \<lfloor>\<bar>r\<bar> * 100 + 1 / 2\<rfloor> mod 10
                else exponentDigit \<bar>r\<bar>)
      | PInf \<Rightarrow> None
      | NInf \<Rightarrow> None
      | NaN \<Rightarrow> None)"

text \<open>
  The scoring models index ten-element arrays by the digits they are given, so a digit
  sequence is well formed when each entry is \<open>NaN\<close> or below 10.
\<close>

definition valid_digits :: "digit list \<Rightarrow> bool" where
  "valid_digits digits = list_all (\<lambda>d. case d of None \<Rightarrow> True | Some k \<Rightarrow> k < 10) digits"

section \<open>Scoring models\<close>

text \<open>
  \<open>counts[d]++\<close> on a ten-element array: a \<open>NaN\<close> index adds a property and leaves the ten
  elements alone.
\<close>

definition increment :: "nat list \<Rightarrow> digit \<Rightarrow> nat list" where
  "increment counts d = (case d of None \<Rightarrow> counts | Some k \<Rightarrow> counts[k := counts ! k + 1])"

definition getLDFScores :: "digit list \<Rightarrow> real list" where
  "getLDFScores digits =
     (let counts = foldl increment (replicate 10 0) digits;
          maxCount = Max (set counts)
      in map (\<lambda>count. (real maxCount - real count) * 1.5) counts)"

text \<open>
  \<open>digits.lastIndexOf(i)\<close> searches backwards from the last index and returns the first
  index that holds digit \<open>i\<close>, or \<open>-1\<close>. \<open>stepsBack\<close> counts the entries passed on the
  way.
\<close>

fun stepsBack :: "digit list \<Rightarrow> nat \<Rightarrow> nat option" where
  "stepsBack [] i = None"
| "stepsBack (d # ds) i = (if d = Some i then Some 0 else map_option Suc (stepsBack ds i))"

definition lastIndexOf :: "digit list \<Rightarrow> nat \<Rightarrow> int" where
  "lastIndexOf digits i =
     (case stepsBack (rev digits) i of
        None \<Rightarrow> - 1
      | Some k \<Rightarrow> int (length digits) - 1 - int k)"

definition getRecencyScores :: "digit list \<Rightarrow> real list" where
  "getRecencyScores digits =
     map (\<lambda>i. let lastSeen = lastIndexOf digits i
               in if lastSeen = - 1 then real ANALYSIS_TICKS
                  else real_of_int (int (length digits) - 1 - lastSeen))
         [0..<10]"

text \<open>
  \<open>digits[digits.length - 1]\<close> is \<open>undefined\<close> on the empty array; like \<open>NaN\<close>, it is
  strictly equal to no entry.
\<close>

definition lastEntry :: "digit list \<Rightarrow> digit" where
  "lastEntry digits = (if digits = [] then None else last digits)"

definition strictEq :: "digit \<Rightarrow> digit \<Rightarrow> bool" where
  "strictEq a b = (case a of None \<Rightarrow> False | Some k \<Rightarrow> b = Some k)"

definition countTransition :: "digit \<Rightarrow> nat list \<Rightarrow> digit \<times> digit \<Rightarrow> nat list" where
  "countTransition l transitions pr =
     (if strictEq (fst pr) l then increment transitions (snd pr) else transitions)"

definition getPairingFrequencyScores :: "digit list \<Rightarrow> real list" where
  "getPairingFrequencyScores digits =
     (let l = lastEntry digits;
          transitions = foldl (countTransition l) (replicate 10 0) (zip digits (tl digits));
          maxTransition = Max (set transitions)
      in map (\<lambda>count. (real count / real (if maxTransition = 0 then 1 else maxTransition)) * 30)
           transitions)"

section \<open>Volatility gate\<close>

datatype error = TypeError

text \<open>
  \<open>reduce\<close> without an initial value throws on the empty array. A \<open>NaN\<close> among the last
  thirty digits makes the mean and the deviation \<open>NaN\<close>, and \<open>NaN < 2.85\<close> is false.
\<close>

definition getVolatilityCheck :: "digit list \<Rightarrow> error + bool" where
  "getVolatilityCheck digits =
     (let slice = drop (length digits - 30) digits
      in if slice = [] then Inl TypeError
         else if None \<in> set slice then Inr False
         else
           let xs = map (\<lambda>d. real (the d)) slice;
               mean = sum_list xs / real (length xs);
               stdDev = sqrt (sum_list (map (\<lambda>x. (x - mean) ^ 2) xs) / real (length xs))
           in Inr (stdDev < 2.85))"

section \<open>Instruments\<close>

text \<open>The weights of the three models, as exact reals.\<close>

record weights =
  ldf :: real
  recency :: real
  pf :: real

text \<open>The three score vectors of one analysis, as captured in a signal.\<close>

record modelScores =
  ldfScores :: "real list"
  recencyScores :: "real list"
  pfScores :: "real list"

record activeSignal =
  predictedDigit :: nat
  modelScores :: modelScores
  entryTime :: nat

record instrument =
  symbol :: string
  priceHistory :: "jsnum list"
  kalmanState :: kalmanState
  weights :: weights
  activeSignal :: "activeSignal option"
  lossStreak :: nat
  cooldownUntil :: "nat option"

type_synonym instruments = "string \<rightharpoonup> instrument"

definition VOLATILITY_INDEXES :: "(string \<times> string) list" where
  "VOLATILITY_INDEXES =
     [(''1HZ100V'', ''Vol 100 (1s)''), (''1HZ75V'', ''Vol 75 (1s)''),
      (''1HZ50V'', ''Vol 50 (1s)''), (''1HZ25V'', ''Vol 25 (1s)''),
      (''1HZ10V'', ''Vol 10 (1s)'')]"

definition INITIAL_WEIGHTS :: weights where
  "INITIAL_WEIGHTS = \<lparr>ldf = 1.0, recency = 1.0, pf = 1.0\<rparr>"

section \<open>Initialisation and the weights file\<close>

text \<open>
  The weights file is outside the program: it is absent, or reading and parsing it fails,
  or it holds a record of weights per symbol.
\<close>

datatype weightsFile = Missing | Unreadable | Records "string \<rightharpoonup> weights"

fun loadWeights :: "weightsFile \<Rightarrow> (string \<rightharpoonup> weights)" where
  "loadWeights (Records saved) = saved"
| "loadWeights Missing = Map.empty"
| "loadWeights Unreadable = Map.empty"

definition newInstrument :: "(string \<rightharpoonup> weights) \<Rightarrow> string \<Rightarrow> instrument" where
  "newInstrument savedWeights smb =
     \<lparr>symbol = smb,
      priceHistory = [],
      kalmanState = initialKalmanState,
      weights = (case savedWeights smb of Some w \<Rightarrow> w | None \<Rightarrow> INITIAL_WEIGHTS),
      activeSignal = None,
      lossStreak = 0,
      cooldownUntil = None\<rparr>"

definition initializeInstruments :: "weightsFile \<Rightarrow> instruments" where
  "initializeInstruments file =
     (let savedWeights = loadWeights file
      in foldl (\<lambda>insts smb. insts(smb \<mapsto> newInstrument savedWeights smb))
           Map.empty (map fst VOLATILITY_INDEXES))"

text \<open>The snapshot that \<open>saveWeights\<close> writes; a failed write is logged and ignored.\<close>

definition saveWeights :: "instruments \<Rightarrow> (string \<rightharpoonup> weights)" where
  "saveWeights insts = map_option weights \<circ> insts"

section \<open>Fusion and the certainty gate\<close>

datatype model = LDF | RECENCY | PF

datatype prediction =
  HOLD string
| CONFIRMED nat int "model list" modelScores

text \<open>The field \<open>signal\<close> of a prediction.\<close>

fun signal :: "prediction \<Rightarrow> string" where
  "signal (HOLD reason) = ''HOLD''"
| "signal (CONFIRMED d confidence topModels ms) = ''CONFIRMED''"

definition fuse :: "weights \<Rightarrow> modelScores \<Rightarrow> real list" where
  "fuse w ms =
     map (\<lambda>i. 0 + ldfScores ms ! i * ldf w + recencyScores ms ! i * recency w
                 + pfScores ms ! i * pf w)
       [0..<10]"

text \<open>
  \<open>sort((a, b) => b.score - a.score)\<close>: descending by score, and stable, so that equal
  scores keep their order.
\<close>

definition sortDescending :: "(real \<times> 'a) list \<Rightarrow> (real \<times> 'a) list" where
  "sortDescending entries = sort_key (\<lambda>e. - fst e) entries"

definition rankScores :: "real list \<Rightarrow> (real \<times> nat) list" where
  "rankScores finalScores = sortDescending (zip finalScores [0..<10])"

definition isCertain :: "real \<Rightarrow> real \<Rightarrow> bool" where
  "isCertain bestScore runnerUpScore = (bestScore > runnerUpScore * CERTAINTY_THRESHOLD)"

definition certaintyGate :: "weights \<Rightarrow> modelScores \<Rightarrow> prediction" where
  "certaintyGate w ms =
     (let sortedScores = rankScores (fuse w ms);
          best = sortedScores ! 0;
          runnerUp = sortedScores ! 1
      in if isCertain (fst best) (fst runnerUp) then
           let confidence = min 99 \<lfloor>50 + (fst best - fst runnerUp) * 2\<rfloor>;
               topModels = map snd (take 2 (sortDescending
                  [(ldfScores ms ! snd best, LDF),
                   (recencyScores ms ! snd best, RECENCY),
                   (pfScores ms ! snd best, PF)]))
           in CONFIRMED (snd best) confidence topModels ms
         else HOLD ''No High-Certainty Signal'')"

definition scoreModels :: "digit list \<Rightarrow> modelScores" where
  "scoreModels lastDigits =
     \<lparr>ldfScores = getLDFScores lastDigits,
      recencyScores = getRecencyScores lastDigits,
      pfScores = getPairingFrequencyScores lastDigits\<rparr>"

definition getAIProbabilityPrediction :: "instrument \<Rightarrow> error + prediction" where
  "getAIProbabilityPrediction inst =
     (if length (priceHistory inst) < ANALYSIS_TICKS then Inr (HOLD ''Calibrating...'')
      else
        let lastDigits = map lastDigit (priceHistory inst)
        in case getVolatilityCheck lastDigits of
             Inl e \<Rightarrow> Inl e
           | Inr isStable \<Rightarrow>
               if \<not> isStable then Inr (HOLD ''Market too volatile'')
               else Inr (certaintyGate (weights inst) (scoreModels lastDigits)))"

section \<open>Tick handling\<close>

text \<open>
  \<open>runAnalysis\<close> at time \<open>now\<close>. The broadcasts leave the instrument as it is and are
  left out; the evaluation that the timer runs five seconds later is the event
  \<open>Timer\<close> below.
\<close>

definition runAnalysis :: "nat \<Rightarrow> instrument \<Rightarrow> error + instrument" where
  "runAnalysis now inst =
     (case activeSignal inst of
        Some sig \<Rightarrow> Inr inst
      | None \<Rightarrow>
          (case getAIProbabilityPrediction inst of
             Inl e \<Rightarrow> Inl e
           | Inr (CONFIRMED d confidence topModels ms) \<Rightarrow>
               Inr (inst\<lparr>activeSignal :=
                      Some \<lparr>predictedDigit = d, modelScores = ms, entryTime = now\<rparr>\<rparr>)
           | Inr (HOLD reason) \<Rightarrow> Inr inst))"

record tick =
  tick_symbol :: string
  quote :: jsnum

text \<open>
  \<open>instruments\<close> is a plain object, so \<open>instruments[symbol]\<close> also finds the properties
  that every object inherits from \<open>Object.prototype\<close>. Each of them is a function or, for
  \<open>__proto__\<close>, the prototype itself: the guard \<open>if (!instruments[symbol]) return\<close> lets it
  pass, it has no \<open>kalmanState\<close>, and \<open>kalmanUpdate\<close> throws when it reads \<open>state.x\<close>,
  before anything is changed.
\<close>

definition inheritedKeys :: "string list" where
  "inheritedKeys =
     [''constructor'', ''__defineGetter__'', ''__defineSetter__'', ''hasOwnProperty'',
      ''__lookupGetter__'', ''__lookupSetter__'', ''isPrototypeOf'', ''propertyIsEnumerable'',
      ''toString'', ''valueOf'', ''__proto__'', ''toLocaleString'']"

text \<open>
  \<open>handleTick\<close> ignores a tick whose symbol is neither an instrument nor an inherited
  key, and throws on an inherited key. For an instrument it smooths the quote, pushes the
  smoothed price onto the history, drops the oldest price once the history holds more
  than \<open>STABILITY_ANALYSIS_TICKS + 5\<close>, and runs the analysis.
\<close>

definition pushPrice :: "jsnum list \<Rightarrow> jsnum \<Rightarrow> jsnum list" where
  "pushPrice history smoothedPrice =
     (let pushed = history @ [smoothedPrice]
      in if length pushed > STABILITY_ANALYSIS_TICKS + 5 then tl pushed else pushed)"

definition smoothAndStore :: "instrument \<Rightarrow> jsnum \<Rightarrow> instrument" where
  "smoothAndStore inst newPrice =
     (let (state, smoothedPrice) = kalmanUpdate (kalmanState inst) newPrice
      in inst\<lparr>kalmanState := state,
              priceHistory := pushPrice (priceHistory inst) smoothedPrice\<rparr>)"

definition handleTick :: "nat \<Rightarrow> tick \<Rightarrow> instruments \<Rightarrow> error + instruments" where
  "handleTick now t insts =
     (case insts (tick_symbol t) of
        None \<Rightarrow> if tick_symbol t \<in> set inheritedKeys then Inl TypeError else Inr insts
      | Some inst \<Rightarrow>
          (case runAnalysis now (smoothAndStore inst (quote t)) of
             Inl e \<Rightarrow> Inl e
           | Inr inst' \<Rightarrow> Inr (insts(tick_symbol t \<mapsto> inst'))))"

section \<open>Learning\<close>

fun getWeight :: "model \<Rightarrow> weights \<Rightarrow> real" where
  "getWeight LDF w = ldf w"
| "getWeight RECENCY w = recency w"
| "getWeight PF w = pf w"

fun addWeight :: "model \<Rightarrow> real \<Rightarrow> weights \<Rightarrow> weights" where
  "addWeight LDF a w = w\<lparr>ldf := ldf w + a\<rparr>"
| "addWeight RECENCY a w = w\<lparr>recency := recency w + a\<rparr>"
| "addWeight PF a w = w\<lparr>pf := pf w + a\<rparr>"

definition clampWeights :: "weights \<Rightarrow> weights" where
  "clampWeights w =
     \<lparr>ldf = max 0.5 (min 2.0 (ldf w)),
      recency = max 0.5 (min 2.0 (recency w)),
      pf = max 0.5 (min 2.0 (pf w))\<rparr>"

text \<open>The three models with their captured score at a digit, best first.\<close>

definition rankModels :: "modelScores \<Rightarrow> nat \<Rightarrow> (real \<times> model) list" where
  "rankModels ms d =
     sortDescending
       [(ldfScores ms ! d, LDF), (recencyScores ms ! d, RECENCY), (pfScores ms ! d, PF)]"

text \<open>
  \<open>backtestAndLearn\<close> on one instrument. Without a price in the history,
  \<open>finalPrice.toFixed\<close> throws. The ranking at the realised digit is only read after a
  win, where that digit is the predicted one; after a loss the ranking at the predicted
  digit decides. The function leaves \<open>activeSignal\<close> to its caller.
\<close>

definition backtestAndLearn :: "instrument \<Rightarrow> error + instrument" where
  "backtestAndLearn inst =
     (case activeSignal inst of
        None \<Rightarrow> Inr inst
      | Some sig \<Rightarrow>
          if priceHistory inst = [] then Inl TypeError
          else
            let finalDigit = lastDigit (last (priceHistory inst));
                wasCorrect = (finalDigit = Some (predictedDigit sig));
                adj = 0.05;
                adjusted =
                  (if wasCorrect then
                     let finalScores = rankModels (modelScores sig) (the finalDigit)
                     in addWeight (snd (finalScores ! 1)) adj
                          (addWeight (snd (finalScores ! 0)) (adj * 2) (weights inst))
                   else
                     let predictedScores = rankModels (modelScores sig) (predictedDigit sig)
                     in addWeight (snd (predictedScores ! 0)) (- (adj * 2)) (weights inst))
            in Inr (inst\<lparr>weights := clampWeights adjusted\<rparr>))"

section \<open>Runs of the engine\<close>

text \<open>
  What happens to the instruments after start-up is a sequence of events: a tick arrives,
  or the timer of an instrument fires, which evaluates and then clears a signal that is
  still active. A thrown error ends the run. A timer is only ever set for an instrument.
\<close>

datatype event = Tick nat tick | Timer string

definition fireTimer :: "string \<Rightarrow> instruments \<Rightarrow> error + instruments" where
  "fireTimer smb insts =
     (case insts smb of
        None \<Rightarrow> Inr insts
      | Some inst \<Rightarrow>
          (case activeSignal inst of
             None \<Rightarrow> Inr insts
           | Some sig \<Rightarrow>
               (case backtestAndLearn inst of
                  Inl e \<Rightarrow> Inl e
                | Inr inst' \<Rightarrow> Inr (insts(smb \<mapsto> inst'\<lparr>activeSignal := None\<rparr>)))))"

fun step :: "event \<Rightarrow> instruments \<Rightarrow> error + instruments" where
  "step (Tick now t) insts = handleTick now t insts"
| "step (Timer smb) insts = fireTimer smb insts"

fun run :: "event list \<Rightarrow> instruments \<Rightarrow> error + instruments" where
  "run [] insts = Inr insts"
| "run (e # es) insts = (case step e insts of Inl err \<Rightarrow> Inl err | Inr insts' \<Rightarrow> run es insts')"

text \<open>
  An event is ordinary unless it is a tick named after an inherited key. The engine
  subscribes to the symbols of \<open>VOLATILITY_INDEXES\<close> only, none of which is one.
\<close>

fun ordinaryEvent :: "event \<Rightarrow> bool" where
  "ordinaryEvent (Tick now t) = (tick_symbol t \<notin> set inheritedKeys)"
| "ordinaryEvent (Timer smb) = True"

text \<open>The learning step invoked \<open>n\<close> times in a row on one instrument.\<close>

fun learnRepeatedly :: "nat \<Rightarrow> instrument \<Rightarrow> error + instrument" where
  "learnRepeatedly 0 inst = Inr inst"
| "learnRepeatedly (Suc n) inst =
     (case backtestAndLearn inst of Inl e \<Rightarrow> Inl e | Inr inst' \<Rightarrow> learnRepeatedly n inst')"

text \<open>The model that a loss penalises: the best one at the predicted digit.\<close>

definition penalizedModel :: "activeSignal \<Rightarrow> model" where
  "penalizedModel sig = snd (rankModels (modelScores sig) (predictedDigit sig) ! 0)"

section \<open>Invariants\<close>

text \<open>Every weight lies in \<open>[0.5, 2.0]\<close>.\<close>

definition weightsInBounds :: "weights \<Rightarrow> bool" where
  "weightsInBounds w =
     (0.5 \<le> ldf w \<and> ldf w \<le> 2.0 \<and> 0.5 \<le> recency w \<and> recency w \<le> 2.0
      \<and> 0.5 \<le> pf w \<and> pf w \<le> 2.0)"

text \<open>
  An instrument is in order when its weights are in bounds and, while a signal is active,
  its history holds a price: a signal is only raised on a history of at least
  \<open>ANALYSIS_TICKS\<close> prices.
\<close>

definition instrumentInOrder :: "instrument \<Rightarrow> bool" where
  "instrumentInOrder inst =
     (weightsInBounds (weights inst) \<and> (activeSignal inst = None \<or> priceHistory inst \<noteq> []))"

definition engineInvariant :: "instruments \<Rightarrow> bool" where
  "engineInvariant insts = (\<forall>inst \<in> ran insts. instrumentInOrder inst)"

section \<open>An example instrument\<close>

text \<open>
  A history of 100 smoothed prices whose last digits run through 0 to 8 over and over and
  never show a 9, under the initial weights.
\<close>

definition exampleHistory :: "jsnum list" where
  "exampleHistory = map (\<lambda>i. Fin (1 + real (i mod 9) / 100)) [0..<100]"

definition exampleInstrument :: instrument where
  "exampleInstrument =
     \<lparr>symbol = ''1HZ100V'', priceHistory = exampleHistory, kalmanState = initialKalmanState,
      weights = INITIAL_WEIGHTS, activeSignal = None, lossStreak = 0, cooldownUntil = None\<rparr>"

text \<open>The last digits of these prices, and the three score vectors they give.\<close>

definition exampleDigits :: "digit list" where
  "exampleDigits =
     [Some 0, Some 1, Some 2, Some 3, Some 4, Some 5, Some 6, Some 7, Some 8, Some 0,
      Some 1, Some 2, Some 3, Some 4, Some 5, Some 6, Some 7, Some 8, Some 0, Some 1,
      Some 2, Some 3, Some 4, Some 5, Some 6, Some 7, Some 8, Some 0, Some 1, Some 2,
      Some 3, Some 4, Some 5, Some 6, Some 7, Some 8, Some 0, Some 1, Some 2, Some 3,
      Some 4, Some 5, Some 6, Some 7, Some 8, Some 0, Some 1, Some 2, Some 3, Some 4,
      Some 5, Some 6, Some 7, Some 8, Some 0, Some 1, Some 2, Some 3, Some 4, Some 5,
      Some 6, Some 7, Some 8, Some 0, Some 1, Some 2, Some 3, Some 4, Some 5, Some 6,
      Some 7, Some 8, Some 0, Some 1, Some 2, Some 3, Some 4, Some 5, Some 6, Some 7,
      Some 8, Some 0, Some 1, Some 2, Some 3, Some 4, Some 5, Some 6, Some 7, Some 8,
      Some 0, Some 1, Some 2, Some 3, Some 4, Some 5, Some 6, Some 7, Some 8, Some 0]"

definition exampleScores :: modelScores where
  "exampleScores =
     \<lparr>ldfScores = [0, 3 / 2, 3 / 2, 3 / 2, 3 / 2, 3 / 2, 3 / 2, 3 / 2, 3 / 2, 18],
      recencyScores = [0, 8, 7, 6, 5, 4, 3, 2, 1, 100],
      pfScores = [0, 30, 0, 0, 0, 0, 0, 0, 0, 0]\<rparr>"

text \<open>The example instrument with the signal that its analysis raises, at time 0.\<close>

definition exampleSignal :: activeSignal where
  "exampleSignal = \<lparr>predictedDigit = 9, modelScores = exampleScores, entryTime = 0\<rparr>"

definition exampleSignalled :: instrument where
  "exampleSignalled = exampleInstrument\<lparr>activeSignal := Some exampleSignal\<rparr>"

section \<open>Counts in the words of the specification\<close>

text \<open>
  The specification speaks of the number of occurrences of a digit in the window and of
  the number of times a digit follows the current last digit. These definitions follow
  those words; the scorers above are compared with them.
\<close>

definition occurrences :: "digit list \<Rightarrow> nat \<Rightarrow> nat" where
  "occurrences digits d = count_list digits (Some d)"

definition maxOccurrences :: "digit list \<Rightarrow> nat" where
  "maxOccurrences digits = Max (occurrences digits ` {0..<10})"

definition transitionCount :: "digit list \<Rightarrow> nat \<Rightarrow> nat" where
  "transitionCount digits k =
     (case lastEntry digits of
        None \<Rightarrow> 0
      | Some l \<Rightarrow> count_list (zip digits (tl digits)) (Some l, Some k))"

definition maxTransitionCount :: "digit list \<Rightarrow> nat" where
  "maxTransitionCount digits = Max (transitionCount digits ` {0..<10})"

section \<open>The smoother on its first observation\<close>

text \<open>
  C2 (as stated): on the first call the estimate becomes \<open>z\<close> and the error covariance is
  1. The covariance part fails: at \<open>z = 5\<close> the first call leaves the covariance at
  \<open>101/1110\<close>, because the update step also runs on the first call.
\<close>

theorem kalmanUpdate_first_call_counterexample:
  "\<not> (est_x (fst (kalmanUpdate initialKalmanState (Fin 5))) = Some (Fin 5)
      \<and> cov_p (fst (kalmanUpdate initialKalmanState (Fin 5))) = Fin 1)"
  by (simp add: kalmanUpdate_def initialKalmanState_def KALMAN_R_def KALMAN_Q_def jsub_def Let_def)

text \<open>
  C2 (amended): for every observation \<open>z\<close>, the smoother applied to the initial filter
  state leaves the error covariance at \<open>(1 - K) * (1 + R)\<close> with
  \<open>K = (1 + R) / (1 + R + Q)\<close>, which is \<open>101/1110\<close>, and not at 1. For every finite \<open>z\<close>
  it returns \<open>z\<close> and stores \<open>z\<close> as the estimate; for an observation that is not finite
  the estimate is \<open>NaN\<close>.
\<close>

theorem kalmanUpdate_first_call:
  "kalmanUpdate initialKalmanState z
     = (\<lparr>est_x = Some (if isFinite z then z else NaN), cov_p = Fin (101 / 1110)\<rparr>,
        if isFinite z then z else NaN)"
  by (cases z)
    (simp_all add: kalmanUpdate_def initialKalmanState_def KALMAN_R_def KALMAN_Q_def jsub_def Let_def)

section \<open>Least-digit-frequency scores\<close>

lemma length_increment: "length (increment cs d) = length cs"
  by (simp add: increment_def split: option.splits)

lemma nth_increment:
  "k < length cs \<Longrightarrow> increment cs d ! k = cs ! k + (if d = Some k then 1 else 0)"
  by (auto simp: increment_def nth_list_update split: option.splits)

lemma length_foldl_increment: "length (foldl increment cs ds) = length cs"
  by (induction ds arbitrary: cs) (simp_all add: length_increment)

lemma nth_foldl_increment:
  "k < length cs \<Longrightarrow> foldl increment cs ds ! k = cs ! k + count_list ds (Some k)"
proof (induction ds arbitrary: cs)
  case Nil
  then show ?case by simp
next
  case (Cons d ds)
  have "foldl increment (increment cs d) ds ! k = increment cs d ! k + count_list ds (Some k)"
    using Cons.prems by (intro Cons.IH) (simp add: length_increment)
  then show ?case using Cons.prems by (simp add: nth_increment)
qed

lemma counts_eq: "foldl increment (replicate 10 0) ds = map (occurrences ds) [0..<10]"
  by (rule nth_equalityI) (simp_all add: length_foldl_increment nth_foldl_increment occurrences_def)

lemma getLDFScores_eq:
  "getLDFScores ds = map (\<lambda>d. (real (maxOccurrences ds) - real (occurrences ds d)) * 1.5) [0..<10]"
  by (simp add: getLDFScores_def counts_eq maxOccurrences_def Let_def o_def del: upt.simps)

lemma occurrences_le_max: "d < 10 \<Longrightarrow> occurrences ds d \<le> maxOccurrences ds"
  by (simp add: maxOccurrences_def)

text \<open>
  C7: for every digit sequence and every digit \<open>d\<close>, the LDF score of \<open>d\<close> is
  \<open>(maxCount - count[d]) * 1.5\<close>, where \<open>count\<close> is the number of occurrences in the whole
  sequence and \<open>maxCount\<close> the largest of the ten counts. No score is negative, every digit
  with the maximal count scores exactly 0, and a digit that does not occur scores
  \<open>maxCount * 1.5\<close>.
\<close>

theorem getLDFScores_correct:
  assumes "valid_digits digits" and "d < 10"
  shows "getLDFScores digits ! d = (real (maxOccurrences digits) - real (occurrences digits d)) * 1.5
    \<and> 0 \<le> getLDFScores digits ! d
    \<and> (occurrences digits d = maxOccurrences digits \<longrightarrow> getLDFScores digits ! d = 0)
    \<and> (Some d \<notin> set digits \<longrightarrow> getLDFScores digits ! d = real (maxOccurrences digits) * 1.5)"
proof -
  have sc: "getLDFScores digits ! d = (real (maxOccurrences digits) - real (occurrences digits d)) * 1.5"
    using assms(2) by (simp add: getLDFScores_eq del: upt.simps)
  have "occurrences digits d \<le> maxOccurrences digits"
    using assms(2) by (rule occurrences_le_max)
  moreover have "Some d \<notin> set digits \<Longrightarrow> occurrences digits d = 0"
    by (simp add: occurrences_def)
  ultimately show ?thesis using sc by auto
qed

theorem getLDFScores_correct_witness:
  "valid_digits [Some 3, Some 3, Some 7, None] \<and> (3::nat) < 10
   \<and> occurrences [Some 3, Some 3, Some 7, None] 3 = maxOccurrences [Some 3, Some 3, Some 7, None]
   \<and> getLDFScores [Some 3, Some 3, Some 7, None] ! 3 = 0
   \<and> Some (9::nat) \<notin> set [Some 3, Some 3, Some 7, None]
   \<and> getLDFScores [Some 3, Some 3, Some 7, None] ! 9 = 3
   \<and> getLDFScores [Some 3, Some 3, Some 7, None] ! 7 = 3 / 2"
proof -
  have v: "valid_digits [Some 3, Some 3, Some 7, None]"
    by (simp add: valid_digits_def)
  have m: "maxOccurrences [Some 3, Some 3, Some 7, None] = 2"
    by code_simp
  have o: "occurrences [Some 3, Some 3, Some 7, None] 3 = 2"
    "occurrences [Some 3, Some 3, Some 7, None] 7 = 1"
    by (simp_all add: occurrences_def)
  show ?thesis
    using getLDFScores_correct [OF v, of 3] getLDFScores_correct [OF v, of 9]
      getLDFScores_correct [OF v, of 7] v m o
    by simp
qed

section \<open>Recency scores\<close>

lemma stepsBack_None: "stepsBack ds i = None \<longleftrightarrow> Some i \<notin> set ds"
  by (induction ds) auto

lemma stepsBack_Some: "stepsBack ds i = Some k \<Longrightarrow> k < length ds"
  by (induction ds arbitrary: k) (auto split: if_splits)

lemma lastIndexOf_range: "- 1 \<le> lastIndexOf ds i \<and> lastIndexOf ds i < int (length ds)"
proof (cases "stepsBack (rev ds) i")
  case None
  then show ?thesis by (simp add: lastIndexOf_def)
next
  case (Some k)
  then have "k < length ds" using stepsBack_Some by fastforce
  with Some show ?thesis by (simp add: lastIndexOf_def)
qed

lemma lastIndexOf_absent: "lastIndexOf ds i = - 1 \<longleftrightarrow> Some i \<notin> set ds"
proof (cases "stepsBack (rev ds) i")
  case None
  then show ?thesis using stepsBack_None [of "rev ds" i] by (simp add: lastIndexOf_def)
next
  case (Some k)
  then have "k < length ds" using stepsBack_Some by fastforce
  moreover have "Some i \<in> set ds" using Some stepsBack_None [of "rev ds" i] by auto
  ultimately show ?thesis using Some by (simp add: lastIndexOf_def)
qed

lemma lastIndexOf_last: "ds \<noteq> [] \<Longrightarrow> last ds = Some i \<Longrightarrow> lastIndexOf ds i = int (length ds) - 1"
proof -
  assume "ds \<noteq> []" and l: "last ds = Some i"
  then obtain xs where xs: "ds = xs @ [Some i]"
    by (metis append_butlast_last_id)
  have "stepsBack (rev ds) i = Some 0"
    unfolding xs by simp
  then show ?thesis by (simp add: lastIndexOf_def)
qed

lemma stepsBack_only_at_end:
  "Some i \<notin> set ds \<Longrightarrow> stepsBack (ds @ [Some i]) i = Some (length ds)"
  by (induction ds) auto

lemma recency_nth:
  "k < 10 \<Longrightarrow> getRecencyScores ds ! k =
     (if Some k \<notin> set ds then 100 else real_of_int (int (length ds) - 1 - lastIndexOf ds k))"
  by (simp add: getRecencyScores_def Let_def lastIndexOf_absent ANALYSIS_TICKS_def del: upt.simps)

text \<open>
  C6 (as stated): the score 100 of a digit that does not occur is the maximum of the ten
  recency scores. It is not: in a sequence of 102 digits that starts with its only 0 and
  has no 9, digit 9 scores 100 and digit 0 scores 101.
\<close>

theorem getRecencyScores_maximum_counterexample:
  "getRecencyScores (Some 0 # replicate 101 (Some 1)) ! 9 = 100
   \<and> getRecencyScores (Some 0 # replicate 101 (Some 1)) ! 0 = 101"
proof -
  have "stepsBack (replicate 101 (Some 1) @ [Some 0]) 0 = Some (length (replicate 101 (Some (1::nat))))"
    by (rule stepsBack_only_at_end) simp
  then have "lastIndexOf (Some 0 # replicate 101 (Some 1)) 0 = 0"
    by (simp add: lastIndexOf_def)
  then show ?thesis
    by (simp add: recency_nth)
qed

text \<open>
  C6 (amended): for every non-empty digit sequence, a digit that does not occur scores
  exactly \<open>ANALYSIS_TICKS = 100\<close>, and the digit at the last position scores 0; 100 is an
  upper bound of the ten scores when the sequence has at most 101 digits.
\<close>

theorem getRecencyScores_correct:
  assumes "valid_digits digits" and "digits \<noteq> []" and "d < 10"
  shows "(Some d \<notin> set digits \<longrightarrow> getRecencyScores digits ! d = real ANALYSIS_TICKS)
    \<and> (last digits = Some d \<longrightarrow> getRecencyScores digits ! d = 0)
    \<and> (length digits \<le> ANALYSIS_TICKS + 1 \<longrightarrow> (\<forall>k<10. getRecencyScores digits ! k \<le> real ANALYSIS_TICKS))"
proof (intro conjI impI allI)
  assume "Some d \<notin> set digits"
  then show "getRecencyScores digits ! d = real ANALYSIS_TICKS"
    using assms(3) by (simp add: recency_nth ANALYSIS_TICKS_def)
next
  assume l: "last digits = Some d"
  then have "Some d \<in> set digits" using assms(2) last_in_set by metis
  then show "getRecencyScores digits ! d = 0"
    using assms(2,3) l by (simp add: recency_nth lastIndexOf_last)
next
  fix k :: nat
  assume len: "length digits \<le> ANALYSIS_TICKS + 1" and k: "k < 10"
  have "- 1 \<le> lastIndexOf digits k" using lastIndexOf_range by blast
  moreover have "Some k \<in> set digits \<Longrightarrow> lastIndexOf digits k \<noteq> - 1"
    by (simp add: lastIndexOf_absent)
  ultimately show "getRecencyScores digits ! k \<le> real ANALYSIS_TICKS"
    using len k by (auto simp: recency_nth ANALYSIS_TICKS_def)
qed

theorem getRecencyScores_correct_witness:
  "valid_digits [Some 3, Some 3, Some 7, None, Some 3] \<and> [Some 3, Some 3, Some 7, None, Some (3::nat)] \<noteq> []
   \<and> (3::nat) < 10 \<and> last [Some 3, Some 3, Some 7, None, Some 3] = Some (3::nat)
   \<and> getRecencyScores [Some 3, Some 3, Some 7, None, Some 3] ! 3 = 0
   \<and> Some (9::nat) \<notin> set [Some 3, Some 3, Some 7, None, Some 3]
   \<and> getRecencyScores [Some 3, Some 3, Some 7, None, Some 3] ! 9 = 100
   \<and> length [Some 3, Some 3, Some 7, None, Some (3::nat)] \<le> ANALYSIS_TICKS + 1
   \<and> getRecencyScores [Some 3, Some 3, Some 7, None, Some 3] ! 7 \<le> 100"
proof -
  have v: "valid_digits [Some 3, Some 3, Some 7, None, Some 3]"
    by (simp add: valid_digits_def)
  have n: "[Some 3, Some 3, Some 7, None, Some (3::nat)] \<noteq> []" by simp
  have l: "length [Some 3, Some 3, Some 7, None, Some (3::nat)] \<le> ANALYSIS_TICKS + 1"
    by (simp add: ANALYSIS_TICKS_def)
  show ?thesis
    using getRecencyScores_correct [OF v n, of 3] getRecencyScores_correct [OF v n, of 9] v l
    by (simp add: ANALYSIS_TICKS_def)
qed

section \<open>Pairing-frequency scores\<close>

lemma length_countTransition: "length (countTransition l cs pr) = length cs"
  by (simp add: countTransition_def length_increment)

lemma length_foldl_countTransition: "length (foldl (countTransition l) cs prs) = length cs"
  by (induction prs arbitrary: cs) (simp_all add: length_countTransition)

lemma nth_countTransition:
  "k < length cs \<Longrightarrow> countTransition l cs pr ! k =
     cs ! k + (case l of None \<Rightarrow> 0 | Some a \<Rightarrow> if pr = (Some a, Some k) then 1 else 0)"
  by (cases pr) (auto simp: countTransition_def strictEq_def nth_increment split: option.splits)

lemma nth_foldl_countTransition:
  "k < length cs \<Longrightarrow> foldl (countTransition l) cs prs ! k =
     cs ! k + (case l of None \<Rightarrow> 0 | Some a \<Rightarrow> count_list prs (Some a, Some k))"
proof (induction prs arbitrary: cs)
  case Nil
  then show ?case by (simp split: option.splits)
next
  case (Cons pr prs)
  have "foldl (countTransition l) (countTransition l cs pr) prs ! k =
      countTransition l cs pr ! k + (case l of None \<Rightarrow> 0 | Some a \<Rightarrow> count_list prs (Some a, Some k))"
    using Cons.prems by (intro Cons.IH) (simp add: length_countTransition)
  then show ?case using Cons.prems by (simp add: nth_countTransition split: option.splits)
qed

lemma transitions_eq:
  "foldl (countTransition (lastEntry ds)) (replicate 10 0) (zip ds (tl ds))
     = map (transitionCount ds) [0..<10]"
  by (rule nth_equalityI)
    (simp_all add: length_foldl_countTransition nth_foldl_countTransition transitionCount_def)

lemma getPairingFrequencyScores_eq:
  "getPairingFrequencyScores ds =
     map (\<lambda>k. real (transitionCount ds k)
            / real (if maxTransitionCount ds = 0 then 1 else maxTransitionCount ds) * 30) [0..<10]"
  by (simp add: getPairingFrequencyScores_def transitions_eq maxTransitionCount_def Let_def o_def
      del: upt.simps)

lemma transitionCount_le_max: "k < 10 \<Longrightarrow> transitionCount ds k \<le> maxTransitionCount ds"
  by (simp add: maxTransitionCount_def)

lemma maxTransitionCount_attained: "\<exists>k<10. transitionCount ds k = maxTransitionCount ds"
proof -
  have "Max (transitionCount ds ` {0..<10}) \<in> transitionCount ds ` {0..<10}"
    by (rule Max_in) simp_all
  then obtain k where "k \<in> {0..<10}" "Max (transitionCount ds ` {0..<10}) = transitionCount ds k"
    by (rule imageE)
  then show ?thesis by (auto simp: maxTransitionCount_def)
qed

lemma pf_nth:
  "k < 10 \<Longrightarrow> getPairingFrequencyScores ds ! k =
     real (transitionCount ds k)
       / real (if maxTransitionCount ds = 0 then 1 else maxTransitionCount ds) * 30"
  by (simp add: getPairingFrequencyScores_eq del: upt.simps)

lemma pf_set:
  "set (getPairingFrequencyScores ds) = (\<lambda>k. getPairingFrequencyScores ds ! k) ` {0..<10}"
proof -
  have "length (getPairingFrequencyScores ds) = 10"
    by (simp add: getPairingFrequencyScores_eq)
  then show ?thesis
    by (simp add: set_conv_nth image_def atLeast0LessThan) blast
qed

text \<open>
  C5: for every digit sequence, if no digit ever followed the current last digit, all ten
  pairing-frequency scores are 0; otherwise the maximum of the ten scores is exactly 30.
\<close>

theorem getPairingFrequencyScores_normalized:
  assumes "valid_digits digits"
  shows "if (\<forall>k<10. transitionCount digits k = 0)
         then getPairingFrequencyScores digits = replicate 10 0
         else Max (set (getPairingFrequencyScores digits)) = 30"
proof (cases "\<forall>k<10. transitionCount digits k = 0")
  case True
  have "getPairingFrequencyScores digits = replicate 10 0"
  proof (rule nth_equalityI)
    show "length (getPairingFrequencyScores digits) = length (replicate 10 (0::real))"
      by (simp add: getPairingFrequencyScores_eq)
  next
    fix i assume "i < length (getPairingFrequencyScores digits)"
    then have "i < 10" by (simp add: getPairingFrequencyScores_eq)
    then show "getPairingFrequencyScores digits ! i = replicate 10 0 ! i"
      using True by (simp add: pf_nth)
  qed
  with True show ?thesis by simp
next
  case False
  then obtain j where j: "j < 10" "transitionCount digits j \<noteq> 0" by blast
  have "transitionCount digits j \<le> maxTransitionCount digits"
    using j(1) by (rule transitionCount_le_max)
  with j(2) have pos: "0 < maxTransitionCount digits" by simp
  obtain m where m: "m < 10" "transitionCount digits m = maxTransitionCount digits"
    using maxTransitionCount_attained by blast
  have top: "getPairingFrequencyScores digits ! m = 30"
    using m pos by (simp add: pf_nth)
  have le: "getPairingFrequencyScores digits ! k \<le> 30" if "k < 10" for k
  proof -
    have "real (transitionCount digits k) \<le> real (maxTransitionCount digits)"
      using transitionCount_le_max [OF that] by simp
    then have "real (transitionCount digits k) / real (maxTransitionCount digits) * 30 \<le> 1 * 30"
      using pos by (intro mult_right_mono) (simp_all add: divide_le_eq_1)
    moreover have "getPairingFrequencyScores digits ! k =
        real (transitionCount digits k) / real (maxTransitionCount digits) * 30"
      using that pos by (simp add: pf_nth)
    ultimately show ?thesis by simp
  qed
  have "Max (set (getPairingFrequencyScores digits)) = 30"
  proof (rule Max_eqI)
    show "finite (set (getPairingFrequencyScores digits))" by simp
  next
    fix y assume "y \<in> set (getPairingFrequencyScores digits)"
    then show "y \<le> 30" using le by (auto simp: pf_set)
  next
    show "30 \<in> set (getPairingFrequencyScores digits)"
      using top m(1) by (auto simp: pf_set image_def intro!: bexI [of _ m])
  qed
  then show ?thesis by (simp only: False if_False)
qed

theorem getPairingFrequencyScores_normalized_witness:
  "valid_digits [Some 3, Some 3, Some 3, Some 7, Some 3]
   \<and> \<not> (\<forall>k<10. transitionCount [Some 3, Some 3, Some 3, Some 7, Some 3] k = 0)
   \<and> Max (set (getPairingFrequencyScores [Some 3, Some 3, Some 3, Some 7, Some 3])) = 30
   \<and> valid_digits [Some 1, Some 2, None]
   \<and> map (transitionCount [Some 1, Some 2, None]) [0, 1, 2, 3, 4, 5, 6, 7, 8, 9]
        = [0, 0, 0, 0, 0, 0, 0, 0, 0, 0]
   \<and> getPairingFrequencyScores [Some 1, Some 2, None] = replicate 10 0"
proof -
  have v: "valid_digits [Some 3, Some 3, Some 3, Some 7, Some 3]"
    by (simp add: valid_digits_def)
  have "transitionCount [Some 3, Some 3, Some 3, Some 7, Some 3] 3 = 2"
    by (simp add: transitionCount_def lastEntry_def)
  then have n: "\<not> (\<forall>k<10. transitionCount [Some 3, Some 3, Some 3, Some 7, Some 3] k = 0)"
    by (intro notI) (drule spec [of _ 3], simp)
  have "Max (set (getPairingFrequencyScores [Some 3, Some 3, Some 3, Some 7, Some 3])) = 30"
    using getPairingFrequencyScores_normalized [OF v] by (simp only: n if_False)
  moreover have v': "valid_digits [Some 1, Some 2, None]"
    by (simp add: valid_digits_def)
  moreover have z: "\<forall>k<10. transitionCount [Some 1, Some 2, None] k = 0"
    by (simp add: transitionCount_def lastEntry_def)
  moreover have "getPairingFrequencyScores [Some 1, Some 2, None] = replicate 10 0"
    using getPairingFrequencyScores_normalized [OF v'] z by simp
  ultimately show ?thesis using v n by simp
qed

text \<open>
  C4 (as stated): when the last digit is 3 and 3 was followed twice by 3 and once by 7,
  the scores are 20 for digit 3 and 10 for digit 7. On such a sequence the code gives 30
  and 15: the counts are divided by the largest count, 2, before the factor 30.
\<close>

theorem getPairingFrequencyScores_scenario_counterexample:
  "getPairingFrequencyScores [Some 3, Some 3, Some 3, Some 7, Some 3]
     = [0, 0, 0, 30, 0, 0, 0, 15, 0, 0]"
  by code_simp

text \<open>
  C4 (amended): for every digit sequence whose last digit is 3 and in which 3 is followed
  by 3 exactly twice, by 7 exactly once and by no other digit, the pairing-frequency
  scores are 30 for digit 3, 15 for digit 7 and 0 for every other digit.
\<close>

theorem getPairingFrequencyScores_scenario:
  assumes "valid_digits digits"
    and "lastEntry digits = Some 3"
    and "transitionCount digits 3 = 2"
    and "transitionCount digits 7 = 1"
    and "\<forall>k<10. k \<noteq> 3 \<and> k \<noteq> 7 \<longrightarrow> transitionCount digits k = 0"
  shows "getPairingFrequencyScores digits = [0, 0, 0, 30, 0, 0, 0, 15, 0, 0]"
proof -
  have le: "transitionCount digits k \<le> 2" if "k < 10" for k
    using assms(3,4,5) that by (cases "k = 3"; cases "k = 7") auto
  have "Max (transitionCount digits ` {0..<10}) = 2"
  proof (rule Max_eqI)
    show "finite (transitionCount digits ` {0..<10})" by simp
  next
    fix y assume "y \<in> transitionCount digits ` {0..<10}"
    then show "y \<le> 2" using le by auto
  next
    show "2 \<in> transitionCount digits ` {0..<10}"
      using assms(3) by (auto simp: image_def intro!: bexI [of _ 3])
  qed
  then have mx: "maxTransitionCount digits = 2" by (simp add: maxTransitionCount_def)
  have z: "transitionCount digits k = 0" if "k < 10" "k \<noteq> 3" "k \<noteq> 7" for k
    using assms(5) that by blast
  have u: "[0..<10] = [0, 1, 2, 3, 4, 5, 6, 7, 8, 9]"
    by (simp add: upt_rec)
  show ?thesis
    by (simp add: getPairingFrequencyScores_eq mx u assms(3,4) z)
qed

theorem getPairingFrequencyScores_scenario_witness:
  "valid_digits [Some 3, Some 3, Some 3, Some 7, Some 3]
   \<and> lastEntry [Some 3, Some 3, Some 3, Some 7, Some 3] = Some 3
   \<and> transitionCount [Some 3, Some 3, Some 3, Some 7, Some 3] 3 = 2
   \<and> transitionCount [Some 3, Some 3, Some 3, Some 7, Some 3] 7 = 1
   \<and> map (transitionCount [Some 3, Some 3, Some 3, Some 7, Some 3]) [0, 1, 2, 4, 5, 6, 8, 9]
        = [0, 0, 0, 0, 0, 0, 0, 0]
   \<and> getPairingFrequencyScores [Some 3, Some 3, Some 3, Some 7, Some 3]
        = [0, 0, 0, 30, 0, 0, 0, 15, 0, 0]"
proof -
  have v: "valid_digits [Some 3, Some 3, Some 3, Some 7, Some 3]"
    by (simp add: valid_digits_def)
  have l: "lastEntry [Some 3, Some 3, Some 3, Some 7, Some 3] = Some 3"
    by (simp add: lastEntry_def)
  have a: "transitionCount [Some 3, Some 3, Some 3, Some 7, Some 3] 3 = 2"
    by (simp add: transitionCount_def lastEntry_def)
  have b: "transitionCount [Some 3, Some 3, Some 3, Some 7, Some 3] 7 = 1"
    by (simp add: transitionCount_def lastEntry_def)
  have c: "\<forall>k<10. k \<noteq> 3 \<and> k \<noteq> 7 \<longrightarrow> transitionCount [Some 3, Some 3, Some 3, Some 7, Some 3] k = 0"
    by (simp add: transitionCount_def lastEntry_def)
  show ?thesis using getPairingFrequencyScores_scenario [OF v l a b c] v l a b c by simp
qed

section \<open>Ranking the fused scores\<close>

lemma length_rankScores: "length (rankScores fs) = min (length fs) 10"
  by (simp add: rankScores_def sortDescending_def)

lemma rankScores_mem:
  assumes "length fs = 10" and "i < 10"
  shows "\<exists>j<10. rankScores fs ! i = (fs ! j, j)"
proof -
  have "rankScores fs ! i \<in> set (rankScores fs)"
    using assms by (intro nth_mem) (simp add: length_rankScores)
  then have "rankScores fs ! i \<in> set (zip fs [0..<10])"
    by (simp add: rankScores_def sortDescending_def)
  then obtain j where "j < 10" "rankScores fs ! i = (fs ! j, j)"
    using assms(1) by (auto simp: in_set_zip simp del: upt.simps)
  then show ?thesis by blast
qed

lemma negated_rankScores:
  assumes "length fs = 10"
  shows "map (\<lambda>e. - fst e) (rankScores fs) = sort (map uminus fs)"
proof -
  have z: "map (\<lambda>e. - fst e) (zip fs [0..<10]) = map uminus fs"
  proof -
    have "map (\<lambda>e. - fst e) (zip fs [0..<10]) = map uminus (map fst (zip fs [0..<10]))"
      by (simp add: o_def del: upt.simps)
    also have "map fst (zip fs [0..<10]) = fs"
      using assms by (intro map_fst_zip) simp
    finally show ?thesis .
  qed
  have "sort (map (\<lambda>e. - fst e) (zip fs [0..<10]))
      = map (\<lambda>e. - fst e) (sort_key (\<lambda>e. - fst e) (zip fs [0..<10]))"
    by (rule properties_for_sort) simp_all
  then show ?thesis by (simp add: rankScores_def sortDescending_def z del: upt.simps)
qed

lemma rankScores_raise_best:
  assumes len: "length fs = 10"
    and k: "k = snd (rankScores fs ! 0)"
    and v: "fs ! k \<le> v"
  shows "fst (rankScores (fs[k := v]) ! 0) = v
    \<and> fst (rankScores (fs[k := v]) ! 1) = fst (rankScores fs ! 1)"
proof -
  obtain j where j: "j < 10" "rankScores fs ! 0 = (fs ! j, j)"
    using rankScores_mem [OF len, of 0] by auto
  with k have kj: "k = j" by simp
  define N where "N = sort (map uminus fs)"
  define N' where "N' = sort (map uminus (fs[k := v]))"
  have lenN: "length N = 10" by (simp add: N_def len)
  have N: "map (\<lambda>e. - fst e) (rankScores fs) = N"
    unfolding N_def using len by (rule negated_rankScores)
  have N': "map (\<lambda>e. - fst e) (rankScores (fs[k := v])) = N'"
    unfolding N'_def by (rule negated_rankScores) (simp add: len)
  have n0: "N ! 0 = - (fs ! k)"
  proof -
    have "N ! 0 = map (\<lambda>e. - fst e) (rankScores fs) ! 0" by (simp add: N)
    also have "\<dots> = - fst (rankScores fs ! 0)"
      by (intro nth_map [THEN trans]) (simp_all add: length_rankScores len)
    finally show ?thesis by (simp add: j kj)
  qed
  obtain a T where T: "N = a # T"
    using lenN by (cases N) auto
  with n0 have a: "a = - (fs ! k)" by simp
  have sortedN: "sorted N" by (simp add: N_def)
  have "mset (map uminus (fs[k := v])) = add_mset (- v) (mset (map uminus fs) - {#- (fs ! k)#})"
    using j(1) kj len by (simp add: map_update mset_update)
  also have "mset (map uminus fs) = mset N" by (simp add: N_def)
  also have "mset N - {#- (fs ! k)#} = mset T" by (simp add: T a)
  finally have m: "mset (map uminus (fs[k := v])) = add_mset (- v) (mset T)" .
  have "N' = sorted_list_of_multiset (mset (map uminus (fs[k := v])))"
    unfolding N'_def by (rule sorted_list_of_multiset_mset [symmetric])
  also have "\<dots> = insort (- v) (sort T)"
    by (simp only: m sorted_list_of_multiset_insert sorted_list_of_multiset_mset)
  also have "sort T = T"
    using sortedN T by (simp add: sort_key_id_if_sorted)
  also have "insort (- v) T = (- v) # T"
  proof (rule insort_is_Cons)
    show "\<forall>x\<in>set T. - v \<le> x"
      using sortedN T a v by auto
  qed
  finally have N'eq: "N' = (- v) # T" .
  have l': "length (rankScores (fs[k := v])) = 10" by (simp add: length_rankScores len)
  have l: "length (rankScores fs) = 10" by (simp add: length_rankScores len)
  have "- fst (rankScores (fs[k := v]) ! 0) = N' ! 0"
    using l' by (simp add: N' [symmetric])
  then have b0: "fst (rankScores (fs[k := v]) ! 0) = v" by (simp add: N'eq)
  have "- fst (rankScores (fs[k := v]) ! 1) = N' ! 1"
    using l' by (simp add: N' [symmetric])
  moreover have "- fst (rankScores fs ! 1) = N ! 1"
    using l by (simp add: N [symmetric])
  ultimately have "fst (rankScores (fs[k := v]) ! 1) = fst (rankScores fs ! 1)"
    by (simp add: N'eq T)
  with b0 show ?thesis by simp
qed

lemma rankScores_best_is_own_score:
  assumes "length fs = 10"
  shows "snd (rankScores fs ! 0) < 10 \<and> fst (rankScores fs ! 0) = fs ! snd (rankScores fs ! 0)"
  using rankScores_mem [OF assms, of 0] by auto

lemma rankScores_sorted:
  assumes "length fs = 10" and "i \<le> j" and "j < 10"
  shows "fst (rankScores fs ! j) \<le> fst (rankScores fs ! i)"
proof -
  have "sorted (map (\<lambda>e. - fst e) (rankScores fs))"
    by (simp add: rankScores_def sortDescending_def)
  then have "map (\<lambda>e. - fst e) (rankScores fs) ! i \<le> map (\<lambda>e. - fst e) (rankScores fs) ! j"
    using assms by (intro sorted_nth_mono) (simp_all add: length_rankScores)
  then show ?thesis using assms by (simp add: length_rankScores)
qed

lemma rankScores_position:
  assumes "length fs = 10" and "k < 10"
  shows "\<exists>i<10. rankScores fs ! i = (fs ! k, k)"
proof -
  have "(fs ! k, k) \<in> set (zip fs [0..<10])"
    using assms by (auto simp: in_set_zip simp del: upt.simps intro!: exI [of _ k])
  then have "(fs ! k, k) \<in> set (rankScores fs)"
    by (simp add: rankScores_def sortDescending_def)
  then obtain i where "i < length (rankScores fs)" "rankScores fs ! i = (fs ! k, k)"
    by (auto simp: in_set_conv_nth)
  then show ?thesis using assms(1) by (auto simp: length_rankScores)
qed

lemma rankScores_top:
  assumes "length fs = 10" and "k < 10"
  shows "fs ! k \<le> fst (rankScores fs ! 0)"
proof -
  obtain i where "i < 10" "rankScores fs ! i = (fs ! k, k)"
    using rankScores_position [OF assms] by blast
  then show ?thesis using rankScores_sorted [OF assms(1), of 0 i] by simp
qed

lemma rankScores_second:
  assumes "length fs = 10" and "k < 10" and "k \<noteq> snd (rankScores fs ! 0)"
  shows "fs ! k \<le> fst (rankScores fs ! 1)"
proof -
  obtain i where i: "i < 10" "rankScores fs ! i = (fs ! k, k)"
    using rankScores_position [OF assms(1,2)] by blast
  with assms(3) have "i \<noteq> 0" by (cases "i = 0") auto
  then have "1 \<le> i" by simp
  then show ?thesis using rankScores_sorted [OF assms(1), of 1 i] i by simp
qed

lemma rankScores_distinct_indices:
  assumes "length fs = 10"
  shows "snd (rankScores fs ! 1) \<noteq> snd (rankScores fs ! 0)"
proof -
  have "mset (map snd (rankScores fs)) = mset (map snd (zip fs [0..<10]))"
    by (simp add: rankScores_def sortDescending_def del: upt.simps)
  also have "map snd (zip fs [0..<10]) = [0..<10]"
    using assms by (intro map_snd_zip) simp
  finally have d: "distinct (map snd (rankScores fs))"
    using mset_eq_imp_distinct_iff [of "map snd (rankScores fs)" "[0..<10]"] by simp
  have l: "length (map snd (rankScores fs)) = 10"
    using assms by (simp add: length_rankScores)
  have "map snd (rankScores fs) ! 1 \<noteq> map snd (rankScores fs) ! 0"
  proof
    assume "map snd (rankScores fs) ! 1 = map snd (rankScores fs) ! 0"
    then have "(1::nat) = 0"
      using d l nth_eq_iff_index_eq [of "map snd (rankScores fs)" 1 0] by simp
    then show False by simp
  qed
  moreover have "map snd (rankScores fs) ! 1 = snd (rankScores fs ! 1)"
    using l by (intro nth_map) simp
  moreover have "map snd (rankScores fs) ! 0 = snd (rankScores fs ! 0)"
    using l by (intro nth_map) simp
  ultimately show ?thesis by simp
qed

lemma rankScores_first_among_equals:
  assumes len: "length fs = 10" and k: "k < snd (rankScores fs ! 0)"
  shows "fs ! k < fst (rankScores fs ! 0)"
proof -
  let ?Z = "zip fs [0..<10]"
  let ?S = "rankScores fs"
  define m where "m = fst (?S ! 0)"
  define j where "j = snd (?S ! 0)"
  have j10: "j < 10" and own: "m = fs ! j"
    using rankScores_best_is_own_score [OF len] by (simp_all add: m_def j_def)
  have s0: "?S ! 0 = (m, j)" by (simp add: m_def j_def)
  have lenS: "length ?S = 10" by (simp add: length_rankScores len)
  then obtain rest where S: "?S = (m, j) # rest"
    using s0 by (cases ?S) auto
  have "filter (\<lambda>y. - fst y = - m) ?S = filter (\<lambda>y. - fst y = - m) ?Z"
    unfolding rankScores_def sortDescending_def by (rule sort_key_stable)
  then have "filter (\<lambda>y. - fst y = - m) ?Z = (m, j) # filter (\<lambda>y. - fst y = - m) rest"
    by (simp add: S)
  then obtain us vs where Z: "?Z = us @ (m, j) # vs" and us: "\<forall>u\<in>set us. \<not> (- fst u = - m)"
    by (auto simp: filter_eq_Cons_iff)
  have lenZ: "length ?Z = 10" using len by simp
  have nthZ: "?Z ! i = (fs ! i, i)" if "i < 10" for i
    using that len by (simp del: upt.simps)
  have lu: "length us < 10" using Z lenZ by (metis length_append length_Cons add_Suc_right
        less_add_Suc1)
  have "?Z ! length us = (m, j)" by (simp add: Z)
  then have "length us = j" using nthZ [OF lu] by simp
  with k have "k < length us" by (simp add: j_def)
  then have "?Z ! k \<in> set us" by (simp add: Z nth_append)
  moreover have "k < 10" using k j10 by (simp add: j_def)
  ultimately have "fs ! k \<noteq> m" using us nthZ by auto
  moreover have "fs ! k \<le> m"
    using rankScores_top [OF len \<open>k < 10\<close>] by (simp add: m_def)
  ultimately show ?thesis by (simp add: m_def)
qed

lemma isCertain_mono: "isCertain b r \<Longrightarrow> b \<le> b' \<Longrightarrow> isCertain b' r"
  by (simp add: isCertain_def)

lemma signal_certaintyGate:
  "signal (certaintyGate w ms) = ''CONFIRMED'' \<longleftrightarrow>
     isCertain (fst (rankScores (fuse w ms) ! 0)) (fst (rankScores (fuse w ms) ! 1))"
  by (simp add: certaintyGate_def Let_def)

section \<open>The example instrument, evaluated\<close>

text \<open>The deviation is below 2.85 exactly when the variance is below its square.\<close>

lemma getVolatilityCheck_code [code]:
  "getVolatilityCheck digits =
     (let slice = drop (length digits - 30) digits
      in if slice = [] then Inl TypeError
         else if None \<in> set slice then Inr False
         else
           let xs = map (\<lambda>d. real (the d)) slice;
               mean = sum_list xs / real (length xs)
           in Inr (sum_list (map (\<lambda>x. (x - mean) ^ 2) xs) / real (length xs) < 2.85 ^ 2))"
proof -
  have h: "(sqrt x < 2.85) = (x < 2.85 ^ 2)" for x :: real
    using real_sqrt_less_iff [of x "2.85 ^ 2"] by simp
  show ?thesis
    by (simp only: getVolatilityCheck_def Let_def h)
qed

lemma example_digits: "map lastDigit exampleHistory = exampleDigits"
  by code_simp

lemma example_stable: "getVolatilityCheck exampleDigits = Inr True"
  by code_simp

lemma example_ldf: "getLDFScores exampleDigits = [0, 3 / 2, 3 / 2, 3 / 2, 3 / 2, 3 / 2, 3 / 2, 3 / 2, 3 / 2, 18]"
  by code_simp

lemma example_recency: "getRecencyScores exampleDigits = [0, 8, 7, 6, 5, 4, 3, 2, 1, 100]"
  by code_simp

lemma example_pf: "getPairingFrequencyScores exampleDigits = [0, 30, 0, 0, 0, 0, 0, 0, 0, 0]"
  by code_simp

lemma example_scores: "scoreModels exampleDigits = exampleScores"
  by (simp add: scoreModels_def exampleScores_def example_ldf example_recency example_pf)

lemma example_gate: "certaintyGate INITIAL_WEIGHTS exampleScores = CONFIRMED 9 99 [RECENCY, LDF] exampleScores"
  by code_simp

lemma example_length: "length exampleHistory = 100"
  by (simp add: exampleHistory_def)

lemma example_prediction:
  "getAIProbabilityPrediction exampleInstrument = Inr (CONFIRMED 9 99 [RECENCY, LDF] exampleScores)"
  by (simp add: getAIProbabilityPrediction_def exampleInstrument_def example_length ANALYSIS_TICKS_def
      example_digits example_stable example_scores example_gate)

lemma example_fuse:
  "fuse INITIAL_WEIGHTS exampleScores = [0, 79 / 2, 17 / 2, 15 / 2, 13 / 2, 11 / 2, 9 / 2, 7 / 2, 5 / 2, 118]"
  by code_simp

lemma example_rank:
  "rankScores [0, 79 / 2, 17 / 2, 15 / 2, 13 / 2, 11 / 2, 9 / 2, 7 / 2, 5 / 2, 118] ! 0 = (118, 9)"
  "rankScores [0, 79 / 2, 17 / 2, 15 / 2, 13 / 2, 11 / 2, 9 / 2, 7 / 2, 5 / 2, 118] ! 1 = (79 / 2, 1)"
  by code_simp+

lemma example_rank_Suc:
  "rankScores [0, 79 / 2, 17 / 2, 15 / 2, 13 / 2, 11 / 2, 9 / 2, 7 / 2, 5 / 2, 118] ! Suc 0 = (79 / 2, 1)"
  using example_rank(2) by simp

section \<open>Non-negative scores\<close>

lemma length_getLDFScores: "length (getLDFScores ds) = 10"
  by (simp add: getLDFScores_eq)

lemma ldf_nonneg: "k < 10 \<Longrightarrow> 0 \<le> getLDFScores ds ! k"
  using occurrences_le_max [of k ds] by (simp add: getLDFScores_eq del: upt.simps)

lemma recency_nonneg: "k < 10 \<Longrightarrow> 0 \<le> getRecencyScores ds ! k"
  using lastIndexOf_range [of ds k] by (simp add: recency_nth)

lemma pf_nonneg: "k < 10 \<Longrightarrow> 0 \<le> getPairingFrequencyScores ds ! k"
  by (simp add: pf_nth)

lemma fuse_nth:
  "k < 10 \<Longrightarrow> fuse w ms ! k =
     ldfScores ms ! k * ldf w + recencyScores ms ! k * recency w + pfScores ms ! k * pf w"
  by (simp add: fuse_def del: upt.simps)

lemma length_fuse: "length (fuse w ms) = 10"
  by (simp add: fuse_def)

lemma fuse_scoreModels_nonneg:
  assumes "0 \<le> ldf w" and "0 \<le> recency w" and "0 \<le> pf w" and "k < 10"
  shows "0 \<le> fuse w (scoreModels ds) ! k"
  using assms by (simp add: fuse_nth scoreModels_def ldf_nonneg recency_nonneg pf_nonneg)

lemma certaintyGate_confidence:
  assumes nonneg: "\<forall>k<10. 0 \<le> fuse w ms ! k"
    and c: "certaintyGate w ms = CONFIRMED d confidence topModels ms'"
  shows "50 \<le> confidence \<and> confidence \<le> 99"
proof -
  define b where "b = fst (rankScores (fuse w ms) ! 0)"
  define r where "r = fst (rankScores (fuse w ms) ! 1)"
  have cert: "isCertain b r" and conf: "confidence = min 99 \<lfloor>50 + (b - r) * 2\<rfloor>"
    using c by (auto simp: certaintyGate_def Let_def b_def r_def split: if_splits)
  obtain j where "j < 10" "rankScores (fuse w ms) ! 1 = (fuse w ms ! j, j)"
    using rankScores_mem [of "fuse w ms" 1] by (auto simp: length_fuse)
  then have "0 \<le> r" using nonneg by (simp add: r_def)
  with cert have "r < b" by (simp add: isCertain_def CERTAINTY_THRESHOLD_def)
  then have "(50::real) \<le> 50 + (b - r) * 2" by simp
  then have "50 \<le> \<lfloor>50 + (b - r) * 2\<rfloor>" by (simp add: le_floor_iff)
  then show ?thesis by (simp add: conf)
qed

section \<open>The certainty gate\<close>

text \<open>
  C8: a prediction is CONFIRMED exactly when the history holds at least
  \<open>ANALYSIS_TICKS\<close> prices, the volatility gate passes, and the best fused score exceeds
  1.5 times the runner-up's. Best and runner-up are the top two of the ten fused scores:
  the best score is the largest of the ten, at the first digit that reaches it, and the
  runner-up's is the largest among the other nine digits. The test is monotone in the
  best score: a pair of scores that passes still passes after the best score is raised,
  and raising the fused score of the best digit leaves the runner-up's score as it is and
  the decision CONFIRMED. The scores are exact reals here.
\<close>

theorem certainty_gate_monotone:
  "((\<exists>p. getAIProbabilityPrediction inst = Inr p \<and> signal p = ''CONFIRMED'') \<longleftrightarrow>
      (ANALYSIS_TICKS \<le> length (priceHistory inst)
       \<and> getVolatilityCheck (map lastDigit (priceHistory inst)) = Inr True
       \<and> fst (rankScores (fuse (weights inst) (scoreModels (map lastDigit (priceHistory inst)))) ! 0)
           > fst (rankScores (fuse (weights inst) (scoreModels (map lastDigit (priceHistory inst)))) ! 1)
               * 1.5))
   \<and> (isCertain b r \<and> b \<le> b' \<longrightarrow> isCertain b' r)
   \<and> (length fs = 10 \<and> isCertain (fst (rankScores fs ! 0)) (fst (rankScores fs ! 1))
        \<and> fs ! snd (rankScores fs ! 0) \<le> v \<longrightarrow>
      isCertain (fst (rankScores (fs[snd (rankScores fs ! 0) := v]) ! 0))
                (fst (rankScores (fs[snd (rankScores fs ! 0) := v]) ! 1)))
   \<and> length (fuse w ms) = 10
   \<and> (length fs = 10 \<longrightarrow>
        (\<forall>k<10. fs ! k \<le> fst (rankScores fs ! 0))
      \<and> (\<forall>k<10. k \<noteq> snd (rankScores fs ! 0) \<longrightarrow> fs ! k \<le> fst (rankScores fs ! 1))
      \<and> (\<forall>k<snd (rankScores fs ! 0). fs ! k < fst (rankScores fs ! 0))
      \<and> snd (rankScores fs ! 0) < 10 \<and> fst (rankScores fs ! 0) = fs ! snd (rankScores fs ! 0)
      \<and> snd (rankScores fs ! 1) < 10 \<and> fst (rankScores fs ! 1) = fs ! snd (rankScores fs ! 1)
      \<and> snd (rankScores fs ! 1) \<noteq> snd (rankScores fs ! 0))"
proof -
  have gate: "(\<exists>p. getAIProbabilityPrediction inst = Inr p \<and> signal p = ''CONFIRMED'') \<longleftrightarrow>
      (ANALYSIS_TICKS \<le> length (priceHistory inst)
       \<and> getVolatilityCheck (map lastDigit (priceHistory inst)) = Inr True
       \<and> fst (rankScores (fuse (weights inst) (scoreModels (map lastDigit (priceHistory inst)))) ! 0)
           > fst (rankScores (fuse (weights inst) (scoreModels (map lastDigit (priceHistory inst)))) ! 1)
               * 1.5)"
    by (auto simp: getAIProbabilityPrediction_def Let_def signal_certaintyGate isCertain_def
        CERTAINTY_THRESHOLD_def split: sum.splits)
  have pair: "isCertain b r \<and> b \<le> b' \<longrightarrow> isCertain b' r"
    using isCertain_mono by blast
  have raise: "isCertain (fst (rankScores (fs[snd (rankScores fs ! 0) := v]) ! 0))
                (fst (rankScores (fs[snd (rankScores fs ! 0) := v]) ! 1))"
    if a: "length fs = 10 \<and> isCertain (fst (rankScores fs ! 0)) (fst (rankScores fs ! 1))
        \<and> fs ! snd (rankScores fs ! 0) \<le> v"
  proof -
    have own: "fst (rankScores fs ! 0) = fs ! snd (rankScores fs ! 0)"
      using a rankScores_best_is_own_score by blast
    have "fst (rankScores (fs[snd (rankScores fs ! 0) := v]) ! 0) = v
      \<and> fst (rankScores (fs[snd (rankScores fs ! 0) := v]) ! 1) = fst (rankScores fs ! 1)"
      using a by (intro rankScores_raise_best) simp_all
    moreover have "isCertain v (fst (rankScores fs ! 1))"
      using a own isCertain_mono by metis
    ultimately show ?thesis by simp
  qed
  have top: "(\<forall>k<10. fs ! k \<le> fst (rankScores fs ! 0))
      \<and> (\<forall>k<10. k \<noteq> snd (rankScores fs ! 0) \<longrightarrow> fs ! k \<le> fst (rankScores fs ! 1))
      \<and> (\<forall>k<snd (rankScores fs ! 0). fs ! k < fst (rankScores fs ! 0))
      \<and> snd (rankScores fs ! 0) < 10 \<and> fst (rankScores fs ! 0) = fs ! snd (rankScores fs ! 0)
      \<and> snd (rankScores fs ! 1) < 10 \<and> fst (rankScores fs ! 1) = fs ! snd (rankScores fs ! 1)
      \<and> snd (rankScores fs ! 1) \<noteq> snd (rankScores fs ! 0)"
    if len: "length fs = 10"
  proof -
    have "\<forall>k<10. fs ! k \<le> fst (rankScores fs ! 0)"
      using rankScores_top [OF len] by blast
    moreover have "\<forall>k<10. k \<noteq> snd (rankScores fs ! 0) \<longrightarrow> fs ! k \<le> fst (rankScores fs ! 1)"
      using rankScores_second [OF len] by blast
    moreover have "\<forall>k<snd (rankScores fs ! 0). fs ! k < fst (rankScores fs ! 0)"
      using rankScores_first_among_equals [OF len] by blast
    moreover have "snd (rankScores fs ! 0) < 10 \<and> fst (rankScores fs ! 0) = fs ! snd (rankScores fs ! 0)"
      using len by (rule rankScores_best_is_own_score)
    moreover have "snd (rankScores fs ! 1) < 10 \<and> fst (rankScores fs ! 1) = fs ! snd (rankScores fs ! 1)"
      using rankScores_mem [OF len, of 1] by auto
    moreover have "snd (rankScores fs ! 1) \<noteq> snd (rankScores fs ! 0)"
      using len by (rule rankScores_distinct_indices)
    ultimately show ?thesis by blast
  qed
  show ?thesis
    using gate pair raise top length_fuse by blast
qed

theorem certainty_gate_monotone_witness:
  "(\<exists>p. getAIProbabilityPrediction exampleInstrument = Inr p \<and> signal p = ''CONFIRMED'')
   \<and> ANALYSIS_TICKS \<le> length (priceHistory exampleInstrument)
   \<and> isCertain 118 (79 / 2) \<and> (118::real) \<le> 200 \<and> isCertain 200 (79 / 2)
   \<and> length (fuse INITIAL_WEIGHTS exampleScores) = 10
   \<and> fuse INITIAL_WEIGHTS exampleScores
        = [0, 79 / 2, 17 / 2, 15 / 2, 13 / 2, 11 / 2, 9 / 2, 7 / 2, 5 / 2, 118]
   \<and> rankScores (fuse INITIAL_WEIGHTS exampleScores) ! 0 = (118, 9)
   \<and> rankScores (fuse INITIAL_WEIGHTS exampleScores) ! 1 = (79 / 2, 1)
   \<and> snd (rankScores (fuse INITIAL_WEIGHTS exampleScores) ! 1)
        \<noteq> snd (rankScores (fuse INITIAL_WEIGHTS exampleScores) ! 0)
   \<and> fuse INITIAL_WEIGHTS exampleScores ! 2 \<le> fst (rankScores (fuse INITIAL_WEIGHTS exampleScores) ! 1)
   \<and> fuse INITIAL_WEIGHTS exampleScores ! snd (rankScores (fuse INITIAL_WEIGHTS exampleScores) ! 0) \<le> 200
   \<and> isCertain
        (fst (rankScores ((fuse INITIAL_WEIGHTS exampleScores)
                [snd (rankScores (fuse INITIAL_WEIGHTS exampleScores) ! 0) := 200]) ! 0))
        (fst (rankScores ((fuse INITIAL_WEIGHTS exampleScores)
                [snd (rankScores (fuse INITIAL_WEIGHTS exampleScores) ! 0) := 200]) ! 1))"
proof -
  let ?fs = "fuse INITIAL_WEIGHTS exampleScores"
  have p: "\<exists>p. getAIProbabilityPrediction exampleInstrument = Inr p \<and> signal p = ''CONFIRMED''"
    by (simp add: example_prediction)
  have c: "isCertain 118 (79 / 2) \<and> (118::real) \<le> 200"
    by (simp add: isCertain_def CERTAINTY_THRESHOLD_def)
  have e: "?fs = [0, 79 / 2, 17 / 2, 15 / 2, 13 / 2, 11 / 2, 9 / 2, 7 / 2, 5 / 2, 118]"
    by (rule example_fuse)
  have r: "rankScores ?fs ! 0 = (118, 9)" "rankScores ?fs ! 1 = (79 / 2, 1)"
    unfolding example_fuse by (rule example_rank)+
  have f: "length ?fs = 10
      \<and> isCertain (fst (rankScores ?fs ! 0)) (fst (rankScores ?fs ! 1))
      \<and> ?fs ! snd (rankScores ?fs ! 0) \<le> 200"
    by (simp add: example_fuse example_rank example_rank_Suc isCertain_def CERTAINTY_THRESHOLD_def)
  have k: "(2::nat) < 10 \<and> (2::nat) \<noteq> snd (rankScores ?fs ! 0)"
    unfolding r by simp
  note t = certainty_gate_monotone
      [of exampleInstrument 118 "79 / 2" 200 ?fs 200 INITIAL_WEIGHTS exampleScores]
  have m: "isCertain (fst (rankScores (?fs[snd (rankScores ?fs ! 0) := 200]) ! 0))
        (fst (rankScores (?fs[snd (rankScores ?fs ! 0) := 200]) ! 1))"
    using t f by blast
  have n: "snd (rankScores ?fs ! 1) \<noteq> snd (rankScores ?fs ! 0)"
    using t f by blast
  have s: "?fs ! 2 \<le> fst (rankScores ?fs ! 1)"
    using t f k by blast
  have i: "isCertain 200 (79 / 2)"
    using t c by blast
  have h: "ANALYSIS_TICKS \<le> length (priceHistory exampleInstrument)"
    by (simp add: example_length exampleInstrument_def ANALYSIS_TICKS_def)
  show ?thesis
    using p h c i f e r n s m by blast
qed

text \<open>
  C9: when the three weights of an instrument are non-negative, the confidence of every
  CONFIRMED prediction lies between 50 and 99: no fused score is negative, so the best
  score is above the runner-up's.
\<close>

theorem confidence_bounds:
  assumes "0 \<le> ldf (weights inst)" and "0 \<le> recency (weights inst)" and "0 \<le> pf (weights inst)"
    and "getAIProbabilityPrediction inst = Inr (CONFIRMED d confidence topModels ms)"
  shows "50 \<le> confidence \<and> confidence \<le> 99"
proof -
  from assms(4) obtain ds where
    "certaintyGate (weights inst) (scoreModels ds) = CONFIRMED d confidence topModels ms"
    by (auto simp: getAIProbabilityPrediction_def Let_def split: if_splits sum.splits)
  moreover have "\<forall>k<10. 0 \<le> fuse (weights inst) (scoreModels ds) ! k"
    using assms(1-3) by (simp add: fuse_scoreModels_nonneg)
  ultimately show ?thesis by (rule certaintyGate_confidence [rotated])
qed

theorem confidence_bounds_witness:
  "0 \<le> ldf (weights exampleInstrument) \<and> 0 \<le> recency (weights exampleInstrument)
   \<and> 0 \<le> pf (weights exampleInstrument)
   \<and> getAIProbabilityPrediction exampleInstrument = Inr (CONFIRMED 9 99 [RECENCY, LDF] exampleScores)
   \<and> (50::int) \<le> 99 \<and> (99::int) \<le> 99"
proof -
  have w: "0 \<le> ldf (weights exampleInstrument)" "0 \<le> recency (weights exampleInstrument)"
    "0 \<le> pf (weights exampleInstrument)"
    by (simp_all add: exampleInstrument_def INITIAL_WEIGHTS_def)
  have p: "getAIProbabilityPrediction exampleInstrument = Inr (CONFIRMED 9 99 [RECENCY, LDF] exampleScores)"
    by (rule example_prediction)
  show ?thesis using confidence_bounds [OF w p] w p by simp
qed

section \<open>Start-up\<close>

lemma initializeInstruments_lookup:
  "initializeInstruments file smb =
     (if smb \<in> fst ` set VOLATILITY_INDEXES then Some (newInstrument (loadWeights file) smb) else None)"
  by (simp add: initializeInstruments_def VOLATILITY_INDEXES_def Let_def)

text \<open>
  C10: initialisation copies the stored weights of a known symbol as they are, without
  clamping or validation. For every stored record, the weights of the new instrument are
  the stored ones, so they are in \<open>[0.5, 2.0]\<close> only if the stored ones are.
\<close>

theorem initializeInstruments_copies_weights:
  assumes "smb \<in> fst ` set VOLATILITY_INDEXES" and "saved smb = Some w"
  shows "\<exists>inst. initializeInstruments (Records saved) smb = Some inst \<and> weights inst = w
           \<and> (weightsInBounds (weights inst) \<longleftrightarrow> weightsInBounds w)"
  using assms by (simp add: initializeInstruments_lookup newInstrument_def)

theorem initializeInstruments_copies_weights_witness:
  "''1HZ100V'' \<in> fst ` set VOLATILITY_INDEXES
   \<and> [''1HZ100V'' \<mapsto> \<lparr>ldf = 5, recency = 0, pf = - 1\<rparr>] ''1HZ100V'' = Some \<lparr>ldf = 5, recency = 0, pf = - 1\<rparr>
   \<and> (\<exists>inst. initializeInstruments (Records [''1HZ100V'' \<mapsto> \<lparr>ldf = 5, recency = 0, pf = - 1\<rparr>]) ''1HZ100V''
          = Some inst
        \<and> weights inst = \<lparr>ldf = 5, recency = 0, pf = - 1\<rparr> \<and> \<not> weightsInBounds (weights inst))"
proof -
  have k: "''1HZ100V'' \<in> fst ` set VOLATILITY_INDEXES"
    by (simp add: VOLATILITY_INDEXES_def)
  have s: "[''1HZ100V'' \<mapsto> \<lparr>ldf = 5, recency = 0, pf = - 1\<rparr>] ''1HZ100V'' = Some \<lparr>ldf = 5, recency = 0, pf = - 1\<rparr>"
    by simp
  have n: "\<not> weightsInBounds \<lparr>ldf = 5, recency = 0, pf = - 1\<rparr>"
    by (simp add: weightsInBounds_def)
  show ?thesis
    using initializeInstruments_copies_weights
      [of "''1HZ100V''" "[''1HZ100V'' \<mapsto> \<lparr>ldf = 5, recency = 0, pf = - 1\<rparr>]"
          "\<lparr>ldf = 5, recency = 0, pf = - 1\<rparr>", OF k s] k n
    by auto
qed

section \<open>Ticks with a price that is not finite\<close>

lemma jadd_not_finite: "\<not> isFinite b \<Longrightarrow> \<not> isFinite (jadd a b)"
  by (cases a; cases b) simp_all

lemma jneg_not_finite: "\<not> isFinite a \<Longrightarrow> \<not> isFinite (jneg a)"
  by (cases a) simp_all

lemma jsub_not_finite: "\<not> isFinite a \<Longrightarrow> \<not> isFinite (jsub a b)"
  by (cases a; cases b) (simp_all add: jsub_def)

lemma jmul_not_finite: "\<not> isFinite b \<Longrightarrow> \<not> isFinite (jmul a b)"
  by (cases a; cases b) (simp_all add: signed_inf_def)

lemma kalmanUpdate_not_finite:
  "\<not> isFinite z \<Longrightarrow> \<not> isFinite (snd (kalmanUpdate state z))"
  by (simp add: kalmanUpdate_def Let_def jadd_not_finite jmul_not_finite jsub_not_finite)

lemma kalmanUpdate_estimate: "est_x (fst (kalmanUpdate state z)) = Some (snd (kalmanUpdate state z))"
  by (simp add: kalmanUpdate_def Let_def)

lemma pushPrice_last: "pushPrice h v \<noteq> [] \<and> last (pushPrice h v) = v"
proof (cases "length (h @ [v]) > STABILITY_ANALYSIS_TICKS + 5")
  case True
  then have "h \<noteq> []" by (auto simp: STABILITY_ANALYSIS_TICKS_def)
  then obtain a h' where "h = a # h'" by (cases h) auto
  with True show ?thesis by (simp add: pushPrice_def Let_def)
next
  case False
  then show ?thesis by (simp add: pushPrice_def Let_def)
qed

lemma smoothAndStore_fields:
  "weights (smoothAndStore inst z) = weights inst"
  "activeSignal (smoothAndStore inst z) = activeSignal inst"
  "symbol (smoothAndStore inst z) = symbol inst"
  "kalmanState (smoothAndStore inst z) = fst (kalmanUpdate (kalmanState inst) z)"
  "priceHistory (smoothAndStore inst z)
     = pushPrice (priceHistory inst) (snd (kalmanUpdate (kalmanState inst) z))"
  by (simp_all add: smoothAndStore_def split_beta)

lemma slice_nonempty: "ds \<noteq> [] \<Longrightarrow> drop (length ds - 30) ds \<noteq> []"
  by (cases ds) auto

lemma getVolatilityCheck_total: "ds \<noteq> [] \<Longrightarrow> \<exists>b. getVolatilityCheck ds = Inr b"
  using slice_nonempty [of ds] by (auto simp: getVolatilityCheck_def Let_def)

lemma getVolatilityCheck_last_NaN:
  assumes "ds \<noteq> []" and "last ds = None"
  shows "getVolatilityCheck ds = Inr False"
proof -
  have ne: "drop (length ds - 30) ds \<noteq> []" using assms(1) by (rule slice_nonempty)
  then have "last (drop (length ds - 30) ds) = None"
    using assms(2) by (simp add: last_drop)
  then have "None \<in> set (drop (length ds - 30) ds)"
    using ne last_in_set by metis
  with ne show ?thesis by (simp add: getVolatilityCheck_def Let_def)
qed

lemma getAIProbabilityPrediction_total: "\<exists>p. getAIProbabilityPrediction inst = Inr p"
proof (cases "length (priceHistory inst) < ANALYSIS_TICKS")
  case True
  then show ?thesis by (simp add: getAIProbabilityPrediction_def)
next
  case False
  then have "map lastDigit (priceHistory inst) \<noteq> []"
    by (auto simp: ANALYSIS_TICKS_def)
  then obtain b where "getVolatilityCheck (map lastDigit (priceHistory inst)) = Inr b"
    using getVolatilityCheck_total by blast
  with False show ?thesis by (simp add: getAIProbabilityPrediction_def Let_def)
qed

lemma getAIProbabilityPrediction_last_not_finite:
  assumes "priceHistory inst \<noteq> []" and "\<not> isFinite (last (priceHistory inst))"
  shows "\<exists>reason. getAIProbabilityPrediction inst = Inr (HOLD reason)"
proof (cases "length (priceHistory inst) < ANALYSIS_TICKS")
  case True
  then show ?thesis by (simp add: getAIProbabilityPrediction_def)
next
  case False
  have "lastDigit (last (priceHistory inst)) = None"
    using assms(2) by (cases "last (priceHistory inst)") (simp_all add: lastDigit_def)
  then have "last (map lastDigit (priceHistory inst)) = None"
    using assms(1) by (simp add: last_map)
  then have "getVolatilityCheck (map lastDigit (priceHistory inst)) = Inr False"
    using assms(1) by (intro getVolatilityCheck_last_NaN) simp_all
  with False show ?thesis by (simp add: getAIProbabilityPrediction_def Let_def)
qed

lemma runAnalysis_total:
  "\<exists>inst'. runAnalysis now inst = Inr inst' \<and> weights inst' = weights inst
      \<and> priceHistory inst' = priceHistory inst \<and> kalmanState inst' = kalmanState inst"
proof -
  obtain p where "getAIProbabilityPrediction inst = Inr p"
    using getAIProbabilityPrediction_total by blast
  then show ?thesis
    by (cases p) (auto simp: runAnalysis_def split: option.splits)
qed

lemma runAnalysis_last_not_finite:
  assumes "priceHistory inst \<noteq> []" and "\<not> isFinite (last (priceHistory inst))"
  shows "runAnalysis now inst = Inr inst"
proof -
  obtain reason where "getAIProbabilityPrediction inst = Inr (HOLD reason)"
    using getAIProbabilityPrediction_last_not_finite [OF assms] by blast
  then show ?thesis by (simp add: runAnalysis_def split: option.splits)
qed

text \<open>
  C3 (as stated): a tick whose price is not finite is a no-op on the instrument. It is
  not: on a fresh engine, a tick with price \<open>+Infinity\<close> stores \<open>NaN\<close> as the filter
  estimate and appends \<open>NaN\<close> to the price history.
\<close>

theorem handleTick_not_finite_counterexample:
  "handleTick 0 \<lparr>tick_symbol = ''1HZ100V'', quote = PInf\<rparr> (initializeInstruments Missing)
     = Inr ((initializeInstruments Missing)(''1HZ100V'' \<mapsto>
         \<lparr>symbol = ''1HZ100V'', priceHistory = [NaN],
          kalmanState = \<lparr>est_x = Some NaN, cov_p = Fin (101 / 1110)\<rparr>,
          weights = INITIAL_WEIGHTS, activeSignal = None, lossStreak = 0, cooldownUntil = None\<rparr>))
   \<and> handleTick 0 \<lparr>tick_symbol = ''1HZ100V'', quote = PInf\<rparr> (initializeInstruments Missing)
     \<noteq> Inr (initializeInstruments Missing)"
proof -
  have i: "initializeInstruments Missing ''1HZ100V'' = Some (newInstrument Map.empty ''1HZ100V'')"
    by (simp add: initializeInstruments_def VOLATILITY_INDEXES_def Let_def)
  have s: "smoothAndStore (newInstrument Map.empty ''1HZ100V'') PInf =
      \<lparr>symbol = ''1HZ100V'', priceHistory = [NaN],
       kalmanState = \<lparr>est_x = Some NaN, cov_p = Fin (101 / 1110)\<rparr>,
       weights = INITIAL_WEIGHTS, activeSignal = None, lossStreak = 0, cooldownUntil = None\<rparr>"
    by (simp add: smoothAndStore_def newInstrument_def kalmanUpdate_def initialKalmanState_def
        pushPrice_def Let_def KALMAN_R_def KALMAN_Q_def jsub_def STABILITY_ANALYSIS_TICKS_def)
  have r: "runAnalysis 0 (smoothAndStore (newInstrument Map.empty ''1HZ100V'') PInf)
      = Inr (smoothAndStore (newInstrument Map.empty ''1HZ100V'') PInf)"
    by (simp add: s runAnalysis_def getAIProbabilityPrediction_def ANALYSIS_TICKS_def)
  have e: "handleTick 0 \<lparr>tick_symbol = ''1HZ100V'', quote = PInf\<rparr> (initializeInstruments Missing)
     = Inr ((initializeInstruments Missing)(''1HZ100V'' \<mapsto>
         smoothAndStore (newInstrument Map.empty ''1HZ100V'') PInf))"
    by (simp add: handleTick_def i r)
  have "(initializeInstruments Missing)(''1HZ100V'' \<mapsto>
         smoothAndStore (newInstrument Map.empty ''1HZ100V'') PInf) \<noteq> initializeInstruments Missing"
  proof
    assume "(initializeInstruments Missing)(''1HZ100V'' \<mapsto>
         smoothAndStore (newInstrument Map.empty ''1HZ100V'') PInf) = initializeInstruments Missing"
    then have "((initializeInstruments Missing)(''1HZ100V'' \<mapsto>
         smoothAndStore (newInstrument Map.empty ''1HZ100V'') PInf)) ''1HZ100V''
        = initializeInstruments Missing ''1HZ100V''"
      by simp
    then have "smoothAndStore (newInstrument Map.empty ''1HZ100V'') PInf = newInstrument Map.empty ''1HZ100V''"
      by (simp add: i)
    then have "priceHistory (smoothAndStore (newInstrument Map.empty ''1HZ100V'') PInf)
        = priceHistory (newInstrument Map.empty ''1HZ100V'')"
      by simp
    then show False unfolding s by (simp add: newInstrument_def)
  qed
  with e show ?thesis by (simp add: s)
qed

text \<open>
  C3 (amended): for every known instrument and every tick whose price is not finite, the
  tick is processed like any other: the smoother runs, the filter estimate becomes a
  value that is not finite, and that value is appended to the price history. The tick
  raises no signal and leaves the weights and the active signal as they are.
\<close>

theorem handleTick_not_finite:
  assumes "insts (tick_symbol t) = Some inst" and "\<not> isFinite (quote t)"
  shows "handleTick now t insts = Inr (insts(tick_symbol t \<mapsto> smoothAndStore inst (quote t)))
    \<and> priceHistory (smoothAndStore inst (quote t)) \<noteq> []
    \<and> \<not> isFinite (last (priceHistory (smoothAndStore inst (quote t))))
    \<and> est_x (kalmanState (smoothAndStore inst (quote t)))
        = Some (last (priceHistory (smoothAndStore inst (quote t))))
    \<and> weights (smoothAndStore inst (quote t)) = weights inst
    \<and> activeSignal (smoothAndStore inst (quote t)) = activeSignal inst"
proof -
  let ?v = "snd (kalmanUpdate (kalmanState inst) (quote t))"
  let ?i = "smoothAndStore inst (quote t)"
  have h: "priceHistory ?i \<noteq> []" and l: "last (priceHistory ?i) = ?v"
    using pushPrice_last [of "priceHistory inst" ?v] by (simp_all add: smoothAndStore_fields)
  have nf: "\<not> isFinite (last (priceHistory ?i))"
    using assms(2) by (simp add: l kalmanUpdate_not_finite)
  have "runAnalysis now ?i = Inr ?i"
    using h nf by (rule runAnalysis_last_not_finite)
  then have "handleTick now t insts = Inr (insts(tick_symbol t \<mapsto> ?i))"
    using assms(1) by (simp add: handleTick_def)
  then show ?thesis
    using h nf l by (simp add: smoothAndStore_fields kalmanUpdate_estimate)
qed

theorem handleTick_not_finite_witness:
  "initializeInstruments Missing (tick_symbol \<lparr>tick_symbol = ''1HZ100V'', quote = NInf\<rparr>)
     = Some (newInstrument Map.empty ''1HZ100V'')
   \<and> \<not> isFinite (quote \<lparr>tick_symbol = ''1HZ100V'', quote = NInf\<rparr>)
   \<and> handleTick 7 \<lparr>tick_symbol = ''1HZ100V'', quote = NInf\<rparr> (initializeInstruments Missing)
       = Inr ((initializeInstruments Missing)(''1HZ100V'' \<mapsto>
                smoothAndStore (newInstrument Map.empty ''1HZ100V'') NInf))
   \<and> priceHistory (smoothAndStore (newInstrument Map.empty ''1HZ100V'') NInf) = [NaN]
   \<and> est_x (kalmanState (smoothAndStore (newInstrument Map.empty ''1HZ100V'') NInf)) = Some NaN"
proof -
  have i: "initializeInstruments Missing (tick_symbol \<lparr>tick_symbol = ''1HZ100V'', quote = NInf\<rparr>)
     = Some (newInstrument Map.empty ''1HZ100V'')"
    by (simp add: initializeInstruments_lookup VOLATILITY_INDEXES_def)
  have q: "\<not> isFinite (quote \<lparr>tick_symbol = ''1HZ100V'', quote = NInf\<rparr>)"
    by simp
  have s: "priceHistory (smoothAndStore (newInstrument Map.empty ''1HZ100V'') NInf) = [NaN]"
    by (simp add: smoothAndStore_def newInstrument_def kalmanUpdate_def initialKalmanState_def
        pushPrice_def Let_def KALMAN_R_def KALMAN_Q_def jsub_def STABILITY_ANALYSIS_TICKS_def)
  show ?thesis
    using handleTick_not_finite
      [of "initializeInstruments Missing" "\<lparr>tick_symbol = ''1HZ100V'', quote = NInf\<rparr>"
          "newInstrument Map.empty ''1HZ100V''" 7, OF i q] i s
    by simp
qed

section \<open>Learning and the bounds of the weights\<close>

lemma clampWeights_in_bounds: "weightsInBounds (clampWeights w)"
  by (simp add: weightsInBounds_def clampWeights_def)

lemma backtestAndLearn_cases:
  "backtestAndLearn inst = Inr inst' \<Longrightarrow>
     priceHistory inst' = priceHistory inst \<and> activeSignal inst' = activeSignal inst
     \<and> (inst' = inst \<and> activeSignal inst = None \<or> weightsInBounds (weights inst'))"
  by (auto simp: backtestAndLearn_def Let_def clampWeights_in_bounds split: option.splits if_splits)

lemma backtestAndLearn_bounds:
  "weightsInBounds (weights inst) \<Longrightarrow> backtestAndLearn inst = Inr inst' \<Longrightarrow>
     weightsInBounds (weights inst')"
  using backtestAndLearn_cases by blast

lemma backtestAndLearn_total:
  "priceHistory inst \<noteq> [] \<or> activeSignal inst = None \<Longrightarrow> \<exists>inst'. backtestAndLearn inst = Inr inst'"
  by (auto simp: backtestAndLearn_def Let_def split: option.splits)

lemma learnRepeatedly_bounds:
  "weightsInBounds (weights inst) \<Longrightarrow> learnRepeatedly n inst = Inr inst' \<Longrightarrow>
     weightsInBounds (weights inst')"
proof (induction n arbitrary: inst)
  case 0
  then show ?case by simp
next
  case (Suc n)
  then obtain inst1 where s: "backtestAndLearn inst = Inr inst1" "learnRepeatedly n inst1 = Inr inst'"
    by (auto split: sum.splits)
  have "weightsInBounds (weights inst1)"
    using Suc.prems(1) s(1) by (rule backtestAndLearn_bounds)
  then show ?case using s(2) by (rule Suc.IH)
qed

lemma learnRepeatedly_total:
  "priceHistory inst \<noteq> [] \<or> activeSignal inst = None \<Longrightarrow> \<exists>inst'. learnRepeatedly n inst = Inr inst'"
proof (induction n arbitrary: inst)
  case 0
  then show ?case by simp
next
  case (Suc n)
  then obtain inst1 where s: "backtestAndLearn inst = Inr inst1"
    using backtestAndLearn_total by blast
  then have "priceHistory inst1 \<noteq> [] \<or> activeSignal inst1 = None"
    using Suc.prems backtestAndLearn_cases by metis
  then obtain inst' where "learnRepeatedly n inst1 = Inr inst'"
    using Suc.IH by blast
  with s show ?case by simp
qed

lemma getWeight_clamp_add:
  "getWeight m (clampWeights (addWeight m a w)) = max 0.5 (min 2.0 (getWeight m w + a))"
  by (cases m) (simp_all add: clampWeights_def)

lemma backtestAndLearn_loss:
  assumes "activeSignal inst = Some sig" and "priceHistory inst \<noteq> []"
    and "lastDigit (last (priceHistory inst)) \<noteq> Some (predictedDigit sig)"
  shows "backtestAndLearn inst
    = Inr (inst\<lparr>weights := clampWeights (addWeight (penalizedModel sig) (- 0.1) (weights inst))\<rparr>)"
  using assms by (simp add: backtestAndLearn_def Let_def penalizedModel_def)

text \<open>
  In the exact arithmetic of the model, \<open>n\<close> losses in a row take \<open>n / 10\<close> off the weight
  of the penalised model until the clamp holds it at 0.5. Of this, only what rounding does
  not disturb goes into the theorem below: the weight is never below 0.5, and it is
  exactly 0.5 once fifteen losses have passed.
\<close>

lemma learnRepeatedly_loss:
  assumes "activeSignal inst = Some sig" and "priceHistory inst \<noteq> []"
    and "lastDigit (last (priceHistory inst)) \<noteq> Some (predictedDigit sig)"
    and "weightsInBounds (weights inst)"
  shows "\<exists>inst'. learnRepeatedly n inst = Inr inst'
    \<and> getWeight (penalizedModel sig) (weights inst')
        = max 0.5 (getWeight (penalizedModel sig) (weights inst) - real n / 10)"
  using assms
proof (induction n arbitrary: inst)
  case 0
  have "0.5 \<le> getWeight (penalizedModel sig) (weights inst)"
    using "0.prems"(4) by (cases "penalizedModel sig") (simp_all add: weightsInBounds_def)
  then show ?case by simp
next
  case (Suc n)
  let ?m = "penalizedModel sig"
  let ?inst1 = "inst\<lparr>weights := clampWeights (addWeight ?m (- 0.1) (weights inst))\<rparr>"
  have b: "backtestAndLearn inst = Inr ?inst1"
    using Suc.prems(1-3) by (rule backtestAndLearn_loss)
  have w0: "0.5 \<le> getWeight ?m (weights inst) \<and> getWeight ?m (weights inst) \<le> 2"
    using Suc.prems(4) by (cases ?m) (simp_all add: weightsInBounds_def)
  have w1: "getWeight ?m (weights ?inst1) = max 0.5 (getWeight ?m (weights inst) - 0.1)"
    using w0 by (simp add: getWeight_clamp_add)
  have "\<exists>inst'. learnRepeatedly n ?inst1 = Inr inst'
      \<and> getWeight ?m (weights inst') = max 0.5 (getWeight ?m (weights ?inst1) - real n / 10)"
    using Suc.prems(1-3) by (intro Suc.IH) (simp_all add: clampWeights_in_bounds)
  then obtain inst' where i: "learnRepeatedly n ?inst1 = Inr inst'"
    "getWeight ?m (weights inst') = max 0.5 (getWeight ?m (weights ?inst1) - real n / 10)"
    by blast
  have "max 0.5 (max 0.5 (getWeight ?m (weights inst) - 0.1) - real n / 10)
      = max (0.5::real) (getWeight ?m (weights inst) - real (Suc n) / 10)"
    by (simp add: max_def field_simps)
  with i w1 b show ?case by simp
qed

lemma engineInvariant_update:
  "engineInvariant insts \<Longrightarrow> instrumentInOrder inst \<Longrightarrow> engineInvariant (insts(smb \<mapsto> inst))"
  by (auto simp: engineInvariant_def ran_def split: if_splits)

lemma engineInvariant_lookup:
  "engineInvariant insts \<Longrightarrow> insts smb = Some inst \<Longrightarrow> instrumentInOrder inst"
  by (auto simp: engineInvariant_def ran_def)

lemma handleTick_invariant:
  assumes "engineInvariant insts" and "handleTick now t insts = Inr insts'"
  shows "engineInvariant insts'"
proof (cases "insts (tick_symbol t)")
  case None
  then show ?thesis using assms by (simp add: handleTick_def split: if_splits)
next
  case (Some inst)
  let ?i = "smoothAndStore inst (quote t)"
  obtain inst' where r: "runAnalysis now ?i = Inr inst'" "weights inst' = weights ?i"
    "priceHistory inst' = priceHistory ?i"
    using runAnalysis_total by blast
  have "weightsInBounds (weights inst)"
    using engineInvariant_lookup [OF assms(1) Some] by (simp add: instrumentInOrder_def)
  moreover have "priceHistory ?i \<noteq> []"
    using pushPrice_last by (simp add: smoothAndStore_fields)
  ultimately have "instrumentInOrder inst'"
    using r by (simp add: instrumentInOrder_def smoothAndStore_fields)
  then have "engineInvariant (insts(tick_symbol t \<mapsto> inst'))"
    using assms(1) engineInvariant_update by blast
  with Some r(1) assms(2) show ?thesis by (simp add: handleTick_def)
qed

lemma handleTick_total:
  assumes "tick_symbol t \<notin> set inheritedKeys"
  shows "\<exists>insts'. handleTick now t insts = Inr insts'"
proof (cases "insts (tick_symbol t)")
  case None
  then show ?thesis using assms by (simp add: handleTick_def)
next
  case (Some inst)
  obtain inst' where "runAnalysis now (smoothAndStore inst (quote t)) = Inr inst'"
    using runAnalysis_total by blast
  with Some show ?thesis by (simp add: handleTick_def)
qed

lemma handleTick_inherited_key:
  "handleTick now \<lparr>tick_symbol = ''constructor'', quote = z\<rparr> (initializeInstruments file)
     = Inl TypeError"
  by (simp add: handleTick_def initializeInstruments_lookup VOLATILITY_INDEXES_def
      inheritedKeys_def)

lemma fireTimer_invariant:
  assumes "engineInvariant insts"
  shows "\<exists>insts'. fireTimer smb insts = Inr insts' \<and> engineInvariant insts'"
proof (cases "insts smb")
  case None
  then show ?thesis using assms by (simp add: fireTimer_def)
next
  case (Some inst)
  note inst = this
  show ?thesis
  proof (cases "activeSignal inst")
    case None
    then show ?thesis using assms inst by (simp add: fireTimer_def)
  next
    case (Some sig)
    have ok: "instrumentInOrder inst" using engineInvariant_lookup [OF assms inst] .
    then have "priceHistory inst \<noteq> []" using Some by (simp add: instrumentInOrder_def)
    then obtain inst' where b: "backtestAndLearn inst = Inr inst'"
      using backtestAndLearn_total by blast
    have "weightsInBounds (weights inst)"
      using ok by (simp add: instrumentInOrder_def)
    then have "weightsInBounds (weights inst')"
      using b by (rule backtestAndLearn_bounds)
    then have "instrumentInOrder (inst'\<lparr>activeSignal := None\<rparr>)"
      by (simp add: instrumentInOrder_def)
    then have "engineInvariant (insts(smb \<mapsto> inst'\<lparr>activeSignal := None\<rparr>))"
      using assms engineInvariant_update by blast
    with inst Some b show ?thesis by (simp add: fireTimer_def)
  qed
qed

lemma step_invariant:
  assumes "engineInvariant insts" and "step e insts = Inr insts'"
  shows "engineInvariant insts'"
proof (cases e)
  case (Tick now t)
  then show ?thesis using assms handleTick_invariant by simp
next
  case (Timer smb)
  obtain insts1 where "fireTimer smb insts = Inr insts1" "engineInvariant insts1"
    using fireTimer_invariant [OF assms(1)] by blast
  with Timer assms(2) show ?thesis by simp
qed

lemma step_total:
  "engineInvariant insts \<Longrightarrow> ordinaryEvent e \<Longrightarrow> \<exists>insts'. step e insts = Inr insts'"
  using handleTick_total fireTimer_invariant by (cases e) fastforce+

lemma run_invariant:
  "engineInvariant insts \<Longrightarrow> run events insts = Inr insts' \<Longrightarrow> engineInvariant insts'"
proof (induction events arbitrary: insts)
  case Nil
  then show ?case by simp
next
  case (Cons e es)
  then obtain insts1 where s: "step e insts = Inr insts1" "run es insts1 = Inr insts'"
    by (auto split: sum.splits)
  have "engineInvariant insts1"
    using Cons.prems(1) s(1) by (rule step_invariant)
  then show ?case using s(2) by (rule Cons.IH)
qed

lemma run_total:
  "engineInvariant insts \<Longrightarrow> list_all ordinaryEvent events \<Longrightarrow>
     \<exists>insts'. run events insts = Inr insts'"
proof (induction events arbitrary: insts)
  case Nil
  then show ?case by simp
next
  case (Cons e es)
  then obtain insts1 where s: "step e insts = Inr insts1"
    using step_total by fastforce
  have "engineInvariant insts1"
    using Cons.prems(1) s by (rule step_invariant)
  then obtain insts' where "run es insts1 = Inr insts'"
    using Cons.IH Cons.prems(2) by fastforce
  with s show ?case by simp
qed

lemma example_runAnalysis: "runAnalysis 0 exampleInstrument = Inr exampleSignalled"
proof -
  have "activeSignal exampleInstrument = None"
    by (simp add: exampleInstrument_def)
  then show ?thesis
    by (simp add: runAnalysis_def example_prediction exampleSignalled_def exampleSignal_def)
qed

lemma example_last_digit: "lastDigit (last exampleHistory) = Some 0"
  by code_simp

lemma example_penalized: "penalizedModel exampleSignal = RECENCY"
  by code_simp

text \<open>
  C1: weights in \<open>[0.5, 2.0]\<close> stay in \<open>[0.5, 2.0]\<close> under any number of invocations of
  the learning step, after a win as after a loss, and the invocations return whenever the
  history holds a price or no signal is active. The same holds along every run of the
  engine that returns, whatever ticks arrive and timers fire, and a run returns when no
  tick is named after an inherited key. After any number of losses in a row the weight of
  the penalised model is never below 0.5, and it is exactly 0.5 from the fifteenth loss
  on.
\<close>

theorem backtestAndLearn_weight_bounds:
  "(weightsInBounds (weights inst) \<and> learnRepeatedly n inst = Inr inst'
      \<longrightarrow> weightsInBounds (weights inst'))
   \<and> (priceHistory inst \<noteq> [] \<or> activeSignal inst = None
      \<longrightarrow> (\<exists>inst'. learnRepeatedly n inst = Inr inst'))
   \<and> (engineInvariant insts \<and> run events insts = Inr insts'
      \<longrightarrow> engineInvariant insts' \<and> (\<forall>inst' \<in> ran insts'. weightsInBounds (weights inst')))
   \<and> (engineInvariant insts \<and> list_all ordinaryEvent events
      \<longrightarrow> (\<exists>insts'. run events insts = Inr insts'))
   \<and> (weightsInBounds (weights inst) \<and> activeSignal inst = Some sig \<and> priceHistory inst \<noteq> []
       \<and> lastDigit (last (priceHistory inst)) \<noteq> Some (predictedDigit sig)
      \<longrightarrow> (\<exists>inst'. learnRepeatedly n inst = Inr inst'
            \<and> 0.5 \<le> getWeight (penalizedModel sig) (weights inst')
            \<and> (15 \<le> n \<longrightarrow> getWeight (penalizedModel sig) (weights inst') = 0.5)))"
proof (intro conjI impI)
  assume "weightsInBounds (weights inst) \<and> learnRepeatedly n inst = Inr inst'"
  then show "weightsInBounds (weights inst')" using learnRepeatedly_bounds by blast
next
  assume "priceHistory inst \<noteq> [] \<or> activeSignal inst = None"
  then show "\<exists>inst'. learnRepeatedly n inst = Inr inst'" by (rule learnRepeatedly_total)
next
  assume "engineInvariant insts \<and> run events insts = Inr insts'"
  then show "engineInvariant insts'" using run_invariant by blast
next
  assume "engineInvariant insts \<and> run events insts = Inr insts'"
  then have "engineInvariant insts'" using run_invariant by blast
  then show "\<forall>inst' \<in> ran insts'. weightsInBounds (weights inst')"
    by (auto simp: engineInvariant_def instrumentInOrder_def)
next
  assume "engineInvariant insts \<and> list_all ordinaryEvent events"
  then show "\<exists>insts'. run events insts = Inr insts'" using run_total by blast
next
  assume a: "weightsInBounds (weights inst) \<and> activeSignal inst = Some sig \<and> priceHistory inst \<noteq> []
       \<and> lastDigit (last (priceHistory inst)) \<noteq> Some (predictedDigit sig)"
  let ?m = "penalizedModel sig"
  obtain inst' where i: "learnRepeatedly n inst = Inr inst'"
    "getWeight ?m (weights inst') = max 0.5 (getWeight ?m (weights inst) - real n / 10)"
    using learnRepeatedly_loss [of inst sig n] a by blast
  have "getWeight ?m (weights inst) \<le> 2"
    using a by (cases ?m) (simp_all add: weightsInBounds_def)
  then have "15 \<le> n \<longrightarrow> getWeight ?m (weights inst') = 0.5"
    using i(2) by (auto simp: max_def)
  moreover have "0.5 \<le> getWeight ?m (weights inst')"
    unfolding i(2) by (rule max.cobounded1)
  ultimately show "\<exists>inst'. learnRepeatedly n inst = Inr inst'
            \<and> 0.5 \<le> getWeight ?m (weights inst')
            \<and> (15 \<le> n \<longrightarrow> getWeight ?m (weights inst') = 0.5)"
    using i(1) by blast
qed

theorem backtestAndLearn_weight_bounds_witness:
  "weightsInBounds (weights exampleSignalled)
   \<and> activeSignal exampleSignalled = Some exampleSignal
   \<and> priceHistory exampleSignalled \<noteq> []
   \<and> lastDigit (last (priceHistory exampleSignalled)) \<noteq> Some (predictedDigit exampleSignal)
   \<and> penalizedModel exampleSignal = RECENCY
   \<and> (\<exists>inst'. learnRepeatedly 20 exampleSignalled = Inr inst'
         \<and> getWeight RECENCY (weights inst') = 0.5 \<and> weightsInBounds (weights inst'))
   \<and> engineInvariant (initializeInstruments Missing)
   \<and> list_all ordinaryEvent
        [Tick 0 \<lparr>tick_symbol = ''1HZ100V'', quote = Fin 1.23\<rparr>, Timer ''1HZ100V'']
   \<and> (\<exists>insts'. run [Tick 0 \<lparr>tick_symbol = ''1HZ100V'', quote = Fin 1.23\<rparr>, Timer ''1HZ100V'']
                   (initializeInstruments Missing) = Inr insts'
         \<and> engineInvariant insts')"
proof -
  let ?events = "[Tick 0 \<lparr>tick_symbol = ''1HZ100V'', quote = Fin 1.23\<rparr>, Timer ''1HZ100V'']"
  have w: "weightsInBounds (weights exampleSignalled)"
    by (simp add: exampleSignalled_def exampleInstrument_def INITIAL_WEIGHTS_def weightsInBounds_def)
  have a: "activeSignal exampleSignalled = Some exampleSignal"
    by (simp add: exampleSignalled_def)
  have h: "priceHistory exampleSignalled \<noteq> []"
    by (simp add: exampleSignalled_def exampleInstrument_def exampleHistory_def)
  have l: "lastDigit (last (priceHistory exampleSignalled)) \<noteq> Some (predictedDigit exampleSignal)"
    by (simp add: exampleSignalled_def exampleInstrument_def example_last_digit exampleSignal_def)
  have e: "engineInvariant (initializeInstruments Missing)"
    by (auto simp: engineInvariant_def ran_def initializeInstruments_lookup instrumentInOrder_def
        newInstrument_def INITIAL_WEIGHTS_def weightsInBounds_def split: if_splits)
  have o: "list_all ordinaryEvent ?events"
    by (simp add: inheritedKeys_def)
  obtain inst' where i: "learnRepeatedly 20 exampleSignalled = Inr inst'"
    "getWeight (penalizedModel exampleSignal) (weights inst') = 0.5"
    using backtestAndLearn_weight_bounds
      [of exampleSignalled 20 undefined "initializeInstruments Missing" "[]" undefined exampleSignal]
      w a h l
    by auto
  have b: "weightsInBounds (weights inst')"
    using backtestAndLearn_weight_bounds
      [of exampleSignalled 20 inst' "initializeInstruments Missing" "[]" undefined exampleSignal]
      w i(1)
    by blast
  obtain insts' where r: "run ?events (initializeInstruments Missing) = Inr insts'"
    using backtestAndLearn_weight_bounds
      [of exampleSignalled 20 inst' "initializeInstruments Missing" ?events undefined exampleSignal]
      e o
    by blast
  have "engineInvariant insts'"
    using backtestAndLearn_weight_bounds
      [of exampleSignalled 20 inst' "initializeInstruments Missing" ?events insts' exampleSignal]
      e r
    by blast
  with r have "\<exists>insts'. run ?events (initializeInstruments Missing) = Inr insts'
      \<and> engineInvariant insts'"
    by blast
  then show ?thesis
    using w a h l e o i b by (auto simp: example_penalized)
qed

end
